theory Spec2Isabelle
  imports Complex_Main "HOL-Library.Word" "HOL-Library.Sublist"
begin

unbundle bit_operations_syntax

section \<open>Bytes\<close>

text \<open>
  Python \<open>bytes\<close> objects are lists of 8-bit words. The driver only ever slices
  them with constant, non-negative bounds, so \<open>res[i:j]\<close> is \<open>slice i j res\<close>,
  \<open>res[i:]\<close> and \<open>res[i:len(res)]\<close> are \<open>drop i res\<close>, and \<open>res[:n]\<close> with a
  non-negative \<open>n\<close> is \<open>take n res\<close>. None of these raises when the object is
  too short: the result is just shorter.
\<close>

type_synonym byte = "8 word"
type_synonym bytes = "byte list"

definition slice :: "nat \<Rightarrow> nat \<Rightarrow> 'a list \<Rightarrow> 'a list" where
  "slice i j xs = take (j - i) (drop i xs)"

text \<open>\<open>int.from_bytes(bs, 'big')\<close>, unsigned; the empty object gives 0.\<close>

definition from_bytes_big :: "bytes \<Rightarrow> int" where
  "from_bytes_big bs = foldl (\<lambda>acc b. acc * 256 + uint b) 0 bs"

text \<open>\<open>int.from_bytes(bs, byteorder='big', signed=True)\<close>: two's complement over
  the \<open>8 * len(bs)\<close> bits that are present.\<close>

definition from_bytes_big_signed :: "bytes \<Rightarrow> int" where
  "from_bytes_big_signed bs =
     (let u = from_bytes_big bs; n = 8 * length bs
      in if bs \<noteq> [] \<and> 2 ^ (n - 1) \<le> u then u - 2 ^ n else u)"

text \<open>The exceptions of the Python runtime that the driver can run into.\<close>

datatype exn =
    AttributeError
  | TypeError
  | ValueError
  | OverflowError
  | KeyError
  | UnicodeDecodeError

text \<open>\<open>v.to_bytes(n, 'big')\<close>: raises \<open>OverflowError\<close> for a negative value and
  for one that does not fit into \<open>n\<close> bytes.\<close>

definition to_bytes_big :: "nat \<Rightarrow> int \<Rightarrow> exn + bytes" where
  "to_bytes_big n v =
     (if v < 0 \<or> 2 ^ (8 * n) \<le> v then Inl OverflowError
      else Inr (map (\<lambda>i. word_of_int (v div 2 ^ (8 * (n - 1 - i)))) [0..<n]))"

text \<open>
  \<open>bytes.split(sep)\<close> with a non-empty separator: the occurrences of \<open>sep\<close> are
  found from the left and do not overlap; the pieces between them are returned,
  empty pieces included. \<open>cur\<close> holds the current piece in reverse. (Python raises
  \<open>ValueError\<close> on an empty separator; the driver only splits on the two framing
  bytes.)
\<close>

fun split_from :: "bytes \<Rightarrow> bytes \<Rightarrow> bytes \<Rightarrow> bytes list" where
  "split_from sep cur [] = [rev cur]"
| "split_from sep cur (x # xs) =
     (if sep \<noteq> [] \<and> take (length sep) (x # xs) = sep
      then rev cur # split_from sep [] (drop (length sep - 1) xs)
      else split_from sep (x # cur) xs)"

definition bytes_split :: "bytes \<Rightarrow> bytes \<Rightarrow> bytes list" where
  "bytes_split sep xs = split_from sep [] xs"

section \<open>Constants of class \<open>UHFBytes\<close>\<close>

definition GET_VERSION :: bytes where "GET_VERSION = [0x80, 0x04]"
definition GET_TEMP :: bytes where "GET_TEMP = [0x80, 0x13]"
definition GET_OP_REGION :: bytes where "GET_OP_REGION = [0x80, 0x03]"
definition SET_OP_REGION :: bytes where "SET_OP_REGION = [0x80, 0x02]"
definition GET_OP_PARAMS :: bytes where "GET_OP_PARAMS = [0x80, 0x0B]"
definition SET_OP_PARAMS :: bytes where "SET_OP_PARAMS = [0x80, 0x0A]"
definition GET_EVENT_MASK :: bytes where "GET_EVENT_MASK = [0x80, 0x15]"
definition SET_EVENT_MASK :: bytes where "SET_EVENT_MASK = [0x80, 0x14]"
definition SET_TX_POWER :: bytes where "SET_TX_POWER = [0x80, 0x05]"
definition GET_TX_POWER :: bytes where "GET_TX_POWER = [0x80, 0x06]"
definition SET_ANT_ENABLES :: bytes where "SET_ANT_ENABLES = [0x80, 0x0E]"
definition GET_ANT_ENABLES :: bytes where "GET_ANT_ENABLES = [0x80, 0x0F]"
definition SET_OP_STATE :: bytes where "SET_OP_STATE = [0x80, 0x0C]"
definition GET_OP_STATE :: bytes where "GET_OP_STATE = [0x80, 0x0D]"
definition GET_TAG_REPORT :: bytes where "GET_TAG_REPORT = [0x80, 0x09]"
definition KEEP_ALIVE :: bytes where "KEEP_ALIVE = [0x80, 0x01]"
definition STATUS_SUCCESS :: bytes where "STATUS_SUCCESS = [0x00, 0x00]"
definition FRAMING_BYTES :: bytes where "FRAMING_BYTES = [0xF6, 0x28]"
definition FRAMING_BYTES_LEN :: int where "FRAMING_BYTES_LEN = 2"

lemmas opcode_defs =
  GET_VERSION_def GET_TEMP_def GET_OP_REGION_def SET_OP_REGION_def GET_OP_PARAMS_def
  SET_OP_PARAMS_def GET_EVENT_MASK_def SET_EVENT_MASK_def SET_TX_POWER_def
  GET_TX_POWER_def SET_ANT_ENABLES_def GET_ANT_ENABLES_def SET_OP_STATE_def
  GET_OP_STATE_def GET_TAG_REPORT_def KEEP_ALIVE_def STATUS_SUCCESS_def

section \<open>Trimming a received buffer\<close>

text \<open>
  The value passed as \<open>set_response\<close> is compared with a slice of the response.
  Every caller passes one of the opcode constants, except \<open>keep_alive\<close>, which
  passes the integer \<open>REC_TIMEOUT\<close> in that position; in Python a \<open>bytes\<close>
  object never equals an integer.
\<close>

datatype pyval = PyBytes bytes | PyInt int

text \<open>
  Lines 250 to 261 of \<open>wait_for_response_short\<close>, the part that works on the
  received buffer alone: split on the framing bytes and choose a candidate
  (\<open>select_frame\<close>, lines 250 to 256), then cut it to the length that its own
  length field announces (\<open>cut_to_length\<close>, lines 259 to 261).
\<close>

definition select_frame :: "pyval \<Rightarrow> bytes \<Rightarrow> bytes" where
  "select_frame set_response res =
     (let res_trimmed = bytes_split FRAMING_BYTES res
      in if 2 < length res_trimmed then
           (let res3 = FRAMING_BYTES @ res_trimmed ! 2
            in if PyBytes (slice 4 6 res3) = set_response then res3
               else FRAMING_BYTES @ res_trimmed ! 1)
         else res)"

definition cut_to_length :: "bytes \<Rightarrow> bytes" where
  "cut_to_length res =
     (let length' = from_bytes_big (slice 2 4 res) + FRAMING_BYTES_LEN
      in take (nat length') res)"

definition trim_response :: "pyval \<Rightarrow> bytes \<Rightarrow> bytes" where
  "trim_response set_response res = cut_to_length (select_frame set_response res)"

section \<open>Building commands\<close>

text \<open>
  Hex strings. \<open>bytes.fromhex\<close> skips ASCII whitespace between bytes and wants
  two hex digits for each byte; anything else is a \<open>ValueError\<close>.
\<close>

definition hex_digit :: "char \<Rightarrow> nat option" where
  "hex_digit c =
     (let n = (of_char c :: nat)
      in if 48 \<le> n \<and> n \<le> 57 then Some (n - 48)
         else if 97 \<le> n \<and> n \<le> 102 then Some (n - 87)
         else if 65 \<le> n \<and> n \<le> 70 then Some (n - 55)
         else None)"

definition is_space :: "char \<Rightarrow> bool" where
  "is_space c = ((of_char c :: nat) = 32 \<or> (9 \<le> (of_char c :: nat) \<and> (of_char c :: nat) \<le> 13))"

fun fromhex :: "string \<Rightarrow> exn + bytes" where
  "fromhex [] = Inr []"
| "fromhex [c] = (if is_space c then Inr [] else Inl ValueError)"
| "fromhex (c # d # cs) =
     (if is_space c then fromhex (d # cs)
      else (case (hex_digit c, hex_digit d) of
              (Some h, Some l) \<Rightarrow>
                (case fromhex cs of
                   Inl e \<Rightarrow> Inl e
                 | Inr bs \<Rightarrow> Inr (of_nat (16 * h + l) # bs))
            | _ \<Rightarrow> Inl ValueError))"

text \<open>
  \<open>int(s, 16)\<close> for a string of hex digits, which is what every caller of
  \<open>build_cmd\<close> passes as \<open>length\<close>; the empty string and a string with
  another character give \<open>ValueError\<close>. (Signs, a \<open>0x\<close> prefix, underscores and
  surrounding whitespace, which Python also accepts, are not modelled.)
\<close>

definition int_base16 :: "string \<Rightarrow> exn + nat" where
  "int_base16 s =
     (if s = [] \<or> (\<exists>c \<in> set s. hex_digit c = None) then Inl ValueError
      else Inr (foldl (\<lambda>acc c. 16 * acc + the (hex_digit c)) 0 s))"

text \<open>\<open>format(value, 'x')\<close> for a non-negative integer, and \<open>str.rjust\<close>.\<close>

definition hex_char :: "nat \<Rightarrow> char" where
  "hex_char k = ''0123456789abcdef'' ! k"

fun format_x :: "nat \<Rightarrow> string" where
  "format_x n = (if n < 16 then [hex_char n] else format_x (n div 16) @ [hex_char (n mod 16)])"

declare format_x.simps [simp del]

definition rjust :: "nat \<Rightarrow> char \<Rightarrow> string \<Rightarrow> string" where
  "rjust n c s = replicate (n - length s) c @ s"

definition int_to_hex_string :: "nat \<Rightarrow> string" where
  "int_to_hex_string v = rjust 4 (CHR ''0'') (format_x v)"

text \<open>
  \<open>bytes(word1, "utf-8")\<close>. A Python string is a sequence of code points and
  \<open>len\<close> counts them; the model covers the code points 0 to 255, one \<open>char\<close>
  each, so a code point from 128 on is encoded in two bytes.
\<close>

definition utf8_encode :: "string \<Rightarrow> bytes" where
  "utf8_encode s =
     concat (map (\<lambda>c. let n = (of_char c :: nat)
                       in if n < 128 then [of_nat n]
                          else [of_nat (192 + n div 64), of_nat (128 + n mod 64)]) s)"

text \<open>
  The payload of \<open>build_cmd\<close>: \<open>word1\<close> to \<open>word4\<close> together with
  \<open>word_type\<close>, one constructor for each combination that a caller uses.
\<close>

datatype payload =
    NoWord
  | StrWord string
  | IntWord int
  | IntWords int int int int
  | Int32Word int
  | Uint32Word string int
  | BytWord string

fun payload_bytes :: "payload \<Rightarrow> exn + bytes" where
  "payload_bytes NoWord = Inr []"
| "payload_bytes (StrWord w) = Inr (utf8_encode w @ [0])"
| "payload_bytes (IntWord w1) = to_bytes_big 2 w1"
| "payload_bytes (IntWords w1 w2 w3 w4) =
     (case to_bytes_big 2 w1 of Inl e \<Rightarrow> Inl e | Inr b1 \<Rightarrow>
      (case to_bytes_big 2 w2 of Inl e \<Rightarrow> Inl e | Inr b2 \<Rightarrow>
      (case to_bytes_big 2 w3 of Inl e \<Rightarrow> Inl e | Inr b3 \<Rightarrow>
      (case to_bytes_big 2 w4 of Inl e \<Rightarrow> Inl e | Inr b4 \<Rightarrow> Inr (b1 @ b2 @ b3 @ b4)))))"
| "payload_bytes (Int32Word w1) = to_bytes_big 4 w1"
| "payload_bytes (Uint32Word w1 w2) =
     (case fromhex w1 of Inl e \<Rightarrow> Inl e | Inr b1 \<Rightarrow>
      (case to_bytes_big 4 w2 of Inl e \<Rightarrow> Inl e | Inr b2 \<Rightarrow> Inr (b1 @ b2)))"
| "payload_bytes (BytWord w1) = fromhex w1"

definition build_cmd :: "string \<Rightarrow> string \<Rightarrow> payload \<Rightarrow> exn + bytes" where
  "build_cmd length' cr_opcode word =
     (case fromhex (''F6 28'' @ '' '' @ length' @ '' '' @ cr_opcode) of
        Inl e \<Rightarrow> Inl e
      | Inr header \<Rightarrow>
          (if word = NoWord then Inr header
           else (case payload_bytes word of
                   Inl e \<Rightarrow> Inl e
                 | Inr pl \<Rightarrow>
                     (case int_base16 length' of
                        Inl e \<Rightarrow> Inl e
                      | Inr n \<Rightarrow>
                          Inr ((header @ pl) @ replicate (n - length (header @ pl)) 0)))))"

section \<open>Results and errors of the driver\<close>

text \<open>
  Every method returns its error as a string or \<open>None\<close>. The model keeps one
  constructor for each message of the driver, with the values that the message is
  formatted from, and one for a message that comes from the serial port object.
\<close>

datatype error =
    Transport_error string
  | Unable_to_get_version
  | Unable_to_get_temperature
  | Unable_to_get_operational_parameters
  | Unable_to_set_param string int
  | Unable_to_get_event_mask
  | Unable_to_set_event_mask
  | Unable_to_get_operating_region
  | Invalid_operating_region string
  | Unable_to_set_operating_region
  | Unable_to_get_TX_power
  | Unable_to_set_tx_power int int int int
  | Unable_to_get_a_tag_report
  | Unable_to_get_antenna_enables
  | Unable_to_set_antenna_enables
  | Unable_to_set_operating_state string
  | Unable_to_get_operating_state
  | Unable_to_keep_UHF_module_alive

record version =
  FirmwareRev :: string
  SDKRev :: string
  SoftwareRev :: string
  HardwareRev :: string

record op_param =
  param :: string
  val :: int

record event_mask =
  tag_seen :: bool
  tag_removed :: bool
  tag_power_change :: bool
  tag_report_timeout :: bool
  gen2_op_completed :: bool
  gen2_op_timeout :: bool

record tx_power =
  ant1power :: real
  ant2power :: real
  ant3power :: real
  ant4power :: real

record tag_report =
  replyReason :: string
  powerRSSIRaw :: int
  powerdBm :: int
  timestamp :: int
  antenna :: int
  epcLength :: int

record ant_enables =
  ant1enables :: bool
  ant2enables :: bool
  ant3enables :: bool
  ant4enables :: bool

text \<open>The dictionary \<open>errorAll\<close> and the dictionary \<open>meta_data\<close> of \<open>start_reading\<close>:
  both have a fixed set of keys.\<close>

record error_all =
  err_keep_alive :: "error option"
  err_opSate_set :: "error option"
  err_opRegion_set :: "error option"
  err_SET_TX_POWER :: "error option"
  err_SET_ANT_ENABLES :: "error option"
  err_version_get :: "error option"
  err_temp_get :: "error option"
  err_op_reg_get :: "error option"
  err_tx_power_get :: "error option"
  err_GET_ANT_ENABLES :: "error option"
  err_op_state_get :: "error option"
  err_tag_report_get :: "error option"

record meta_data =
  md_error :: error_all
  md_alive :: "bool option"
  md_version :: "version option"
  md_temp :: "real option"
  md_op_reg :: "string option"
  md_tx_power :: "tx_power option"
  md_ant_enables :: "ant_enables option"
  md_op_state :: "string option"
  md_tag_report :: "tag_report option"

text \<open>
  The parameters that the producer hands over. The four powers are the integers
  \<open>int(antNTxPower * 100)\<close> of \<open>set_tx_power\<close>: the floating-point scaling that
  produces them is not modelled. The antenna flags are the integers that
  \<open>set_ant_enables\<close> formats into a binary numeral.
\<close>

record params =
  tagReport :: bool
  soundEffect :: bool
  opRegion :: string
  ant1TxPower :: int
  ant2TxPower :: int
  ant3TxPower :: int
  ant4TxPower :: int
  ant1Enables :: int
  ant2Enables :: int
  ant3Enables :: int
  ant4Enables :: int

section \<open>The world outside the driver\<close>

text \<open>
  What the driver does to the outside is recorded in a trace: each call of
  \<open>serial_send\<close> with its message, each call of \<open>serial_receive\<close>, each
  \<open>wait_ms\<close>, the line that \<open>start_reading\<close> prints after each tag poll, the
  clearing of the shared parameters and the two signals. Other \<open>print\<close> calls are
  not recorded.
\<close>

datatype event =
    Send bytes
  | Receive
  | Wait_ms nat
  | Print_tag_report "tag_report option"
  | Clear_uhf_params
  | Emit_meta_data meta_data
  | Emit_tag_detected_audio

text \<open>
  What the outside answers is given in advance: the result of the \<open>n\<close>-th call of
  \<open>serial_send\<close> (an error message or \<open>None\<close>), the result of the \<open>n\<close>-th call of
  \<open>serial_receive\<close> (an error message or \<open>None\<close>, and the data or \<open>None\<close>), what
  the \<open>n\<close>-th call of \<open>get_uhf_params\<close> finds in the shared parameters (\<open>None\<close>
  for a dictionary that lacks one of the keys read by \<open>start_reading\<close>). The
  decoder \<open>bytes.decode('utf-8')\<close> is a parameter as well, with \<open>None\<close> for
  \<open>UnicodeDecodeError\<close>.
\<close>

record env =
  send_result :: "nat \<Rightarrow> string option"
  recv_result :: "nat \<Rightarrow> string option \<times> bytes option"
  shared_params :: "nat \<Rightarrow> params option \<times> bool"
  decode_utf8 :: "bytes \<Rightarrow> string option"

record world =
  n_send :: nat
  n_recv :: nat
  n_poll :: nat
  trace :: "event list"

text \<open>A method either raises or returns, and it changes the world in both cases.\<close>

type_synonym 'a comp = "world \<Rightarrow> (exn + 'a) \<times> world"

definition unit_c :: "'a \<Rightarrow> 'a comp" where
  "unit_c a s = (Inr a, s)"

definition raise_c :: "exn \<Rightarrow> 'a comp" where
  "raise_c e s = (Inl e, s)"

definition bind_c :: "'a comp \<Rightarrow> ('a \<Rightarrow> 'b comp) \<Rightarrow> 'b comp" where
  "bind_c m f s = (case m s of (Inl e, s') \<Rightarrow> (Inl e, s') | (Inr a, s') \<Rightarrow> f a s')"

definition lift_c :: "exn + 'a \<Rightarrow> 'a comp" where
  "lift_c r s = (r, s)"

definition log :: "event \<Rightarrow> world \<Rightarrow> world" where
  "log ev s = s\<lparr>trace := trace s @ [ev]\<rparr>"

definition wait_ms :: "nat \<Rightarrow> unit comp" where
  "wait_ms ms s = (Inr (), log (Wait_ms ms) s)"

definition serial_send :: "env \<Rightarrow> bytes \<Rightarrow> (string option) comp" where
  "serial_send tr cmd s =
     (Inr (send_result tr (n_send s)), log (Send cmd) (s\<lparr>n_send := Suc (n_send s)\<rparr>))"

definition serial_receive :: "env \<Rightarrow> (string option \<times> bytes option) comp" where
  "serial_receive tr s =
     (Inr (recv_result tr (n_recv s)), log Receive (s\<lparr>n_recv := Suc (n_recv s)\<rparr>))"

definition get_uhf_params :: "env \<Rightarrow> (params option \<times> bool) comp" where
  "get_uhf_params tr s = (Inr (shared_params tr (n_poll s)), s\<lparr>n_poll := Suc (n_poll s)\<rparr>)"

section \<open>Waiting for a response\<close>

definition send_cmd :: "env \<Rightarrow> bytes \<Rightarrow> (error option) comp" where
  "send_cmd tr cmd =
     bind_c (serial_send tr cmd) (\<lambda>error. unit_c (map_option Transport_error error))"

text \<open>\<open>res.split\<close> on \<open>None\<close> raises \<open>AttributeError\<close>.\<close>

definition wait_for_response_short :: "env \<Rightarrow> pyval \<Rightarrow> (error option \<times> bytes) comp" where
  "wait_for_response_short tr set_response =
     bind_c (serial_receive tr) (\<lambda>(error, res).
       (case res of
          None \<Rightarrow> raise_c AttributeError
        | Some r \<Rightarrow> unit_c (map_option Transport_error error, trim_response set_response r)))"

text \<open>
  The loop of \<open>wait_for_response_long\<close>, with its three variables \<open>count\<close>,
  \<open>error\<close> and \<open>res\<close>. The test \<open>res[4:6] == set_response\<close> is inside the branch
  \<open>error is None\<close>, after \<open>wait_for_response_short\<close> has assigned \<open>res\<close>.
\<close>

function long_loop ::
  "env \<Rightarrow> bytes \<Rightarrow> pyval \<Rightarrow> nat \<Rightarrow> error option \<Rightarrow> bytes option
     \<Rightarrow> (error option \<times> bytes option) comp" where
  "long_loop tr msg set_response count error res s =
     (if count < 5 then
        (case send_cmd tr msg s of
           (Inl e, s1) \<Rightarrow> (Inl e, s1)
         | (Inr error1, s1) \<Rightarrow>
             if error1 = None then
               (case wait_for_response_short tr set_response s1 of
                  (Inl e, s2) \<Rightarrow> (Inl e, s2)
                | (Inr (error2, res2), s2) \<Rightarrow>
                    if PyBytes (slice 4 6 res2) = set_response then (Inr (error2, Some res2), s2)
                    else long_loop tr msg set_response (count + 1) error2 (Some res2)
                           (snd (wait_ms 1000 s2)))
             else long_loop tr msg set_response (count + 1) error1 res (snd (wait_ms 1000 s1)))
      else (Inr (error, res), s))"
  by pat_completeness auto
termination
  by (relation "measure (\<lambda>(tr, msg, set_response, count, error, res, s). 5 - count)") auto

declare long_loop.simps [simp del]

definition wait_for_response_long :: "env \<Rightarrow> pyval \<Rightarrow> (error option \<times> bytes option) comp" where
  "wait_for_response_long tr set_response =
     bind_c (lift_c (build_cmd ''0004'' ''0001'' NoWord)) (\<lambda>msg.
       long_loop tr msg set_response 0 None None)"

section \<open>Small helpers of the class\<close>

text \<open>\<open>x & 1 << n != 0\<close>: the shift binds tighter than \<open>&\<close>, and \<open>&\<close> tighter
  than \<open>!=\<close>.\<close>

definition bit_status :: "int \<Rightarrow> nat \<Rightarrow> bool" where
  "bit_status x n = (x AND push_bit n 1 \<noteq> 0)"

text \<open>\<open>'{}'.format(i)\<close> for an integer, and \<open>int(s, 2)\<close> for a string of binary
  digits. The strings that the driver passes to \<open>int(s, 2)\<close> start with zeros and
  go on with decimal numerals, so a sign, a prefix or an underscore, which Python
  would accept in other places, cannot make them valid.\<close>

fun format_d :: "nat \<Rightarrow> string" where
  "format_d n = (if n < 10 then [hex_char n] else format_d (n div 10) @ [hex_char (n mod 10)])"

declare format_d.simps [simp del]

definition str_int :: "int \<Rightarrow> string" where
  "str_int i = (if i < 0 then CHR ''-'' # format_d (nat (- i)) else format_d (nat i))"

definition int_base2 :: "string \<Rightarrow> exn + int" where
  "int_base2 s =
     (if s = [] \<or> (\<exists>c \<in> set s. c \<noteq> CHR ''0'' \<and> c \<noteq> CHR ''1'') then Inl ValueError
      else Inr (foldl (\<lambda>acc c. 2 * acc + (if c = CHR ''1'' then 1 else 0)) 0 s))"

definition create_event_mask :: "int \<Rightarrow> int \<Rightarrow> int \<Rightarrow> int \<Rightarrow> int \<Rightarrow> int \<Rightarrow> exn + int" where
  "create_event_mask tag_seen' tag_removed' tag_power_change' tag_report_timeout'
       gen2_op_completed' gen2_op_timeout' =
     int_base2 (''00'' @ str_int gen2_op_timeout' @ str_int gen2_op_completed'
                @ str_int tag_report_timeout' @ str_int tag_power_change'
                @ str_int tag_removed' @ str_int tag_seen')"

text \<open>Line 807 of \<open>set_ant_enables\<close>.\<close>

definition pack_ant_enables :: "int \<Rightarrow> int \<Rightarrow> int \<Rightarrow> int \<Rightarrow> exn + int" where
  "pack_ant_enables ant1 ant2 ant3 ant4 =
     int_base2 (''0000'' @ str_int ant4 @ str_int ant3 @ str_int ant2 @ str_int ant1)"

text \<open>\<open>code_to_param\<close> takes an integer or a string.\<close>

datatype code = CodeInt int | CodeStr string

definition format_04x :: "int \<Rightarrow> string" where
  "format_04x c =
     (if c < 0 then CHR ''-'' # rjust 3 (CHR ''0'') (format_x (nat (- c)))
      else rjust 4 (CHR ''0'') (format_x (nat c)))"

definition code_to_param :: "code \<Rightarrow> string" where
  "code_to_param c =
     (let code_hex_string = (case c of CodeInt i \<Rightarrow> format_04x i | CodeStr s \<Rightarrow> s)
      in if code_hex_string = ''0001'' then ''Tag Time Out''
         else if code_hex_string = ''0002'' then ''Tag_Power_Change_Threshold''
         else if code_hex_string = ''0003'' then ''Tag_Report_Timeout''
         else if code_hex_string = ''0004'' then ''Transient_Detect_Time''
         else if code_hex_string = ''0005'' then ''Transient_Count''
         else if code_hex_string = ''0006'' then ''Transient_Interval''
         else if code_hex_string = ''0007'' then ''Gen2_Op_Timeout''
         else ''Response_Not_Defined'')"

section \<open>The get operations\<close>

text \<open>
  The block that every get operation runs after building its message: send, and if
  that gave no error wait 500 ms and take one response.
\<close>

definition request :: "env \<Rightarrow> bytes \<Rightarrow> bytes \<Rightarrow> (error option \<times> bytes option) comp" where
  "request tr msg opcode =
     bind_c (send_cmd tr msg) (\<lambda>error.
       if error = None then
         bind_c (wait_ms 500) (\<lambda>_.
         bind_c (wait_for_response_short tr (PyBytes opcode)) (\<lambda>(error, res).
           unit_c (error, Some res)))
       else unit_c (error, None))"

text \<open>
  The test \<open>res[6:8] == STATUS_SUCCESS and res[4:6] == OPCODE\<close> of the get
  operations; subscripting \<open>None\<close> raises \<open>TypeError\<close>.
\<close>

definition accepted :: "bytes \<Rightarrow> bytes \<Rightarrow> bool" where
  "accepted opcode res = (slice 6 8 res = STATUS_SUCCESS \<and> slice 4 6 res = opcode)"

definition decode :: "env \<Rightarrow> bytes \<Rightarrow> string comp" where
  "decode tr bs = (case decode_utf8 tr bs of None \<Rightarrow> raise_c UnicodeDecodeError | Some t \<Rightarrow> unit_c t)"

definition get_version :: "env \<Rightarrow> (error option \<times> version option) comp" where
  "get_version tr =
     bind_c (lift_c (build_cmd ''0004'' ''0004'' NoWord)) (\<lambda>msg.
     bind_c (request tr msg GET_VERSION) (\<lambda>(error, res).
       if error = None then
         (case res of
            None \<Rightarrow> raise_c TypeError
          | Some r \<Rightarrow>
              if accepted GET_VERSION r then
                bind_c (decode tr (slice 8 13 r)) (\<lambda>Firmware_rev.
                bind_c (decode tr (slice 14 19 r)) (\<lambda>SDK_rev.
                bind_c (decode tr (slice 20 25 r)) (\<lambda>Software_rev.
                bind_c (decode tr (slice 26 29 r)) (\<lambda>Hardware_rev.
                  unit_c (None, Some \<lparr>FirmwareRev = Firmware_rev, SDKRev = SDK_rev,
                                       SoftwareRev = Software_rev, HardwareRev = Hardware_rev\<rparr>)))))
              else unit_c (Some Unable_to_get_version, None))
       else unit_c (error, None)))"

text \<open>The temperature is the quotient of Python's true division; the model has the
  exact quotient, of which the Python float is the nearest double.\<close>

definition get_temp :: "env \<Rightarrow> (error option \<times> real option) comp" where
  "get_temp tr =
     bind_c (lift_c (build_cmd ''0004'' ''0013'' NoWord)) (\<lambda>msg.
     bind_c (request tr msg GET_TEMP) (\<lambda>(error, res).
       if error = None then
         (case res of
            None \<Rightarrow> raise_c TypeError
          | Some r \<Rightarrow>
              if accepted GET_TEMP r then
                unit_c (None, Some (real_of_int (from_bytes_big (drop 8 r)) / 100))
              else unit_c (Some Unable_to_get_temperature, None))
       else unit_c (error, None)))"

text \<open>\<open>bytes.fromhex(code)\<close> in \<open>build_cmd\<close> raises \<open>TypeError\<close> for an integer.\<close>

definition get_operational_params :: "env \<Rightarrow> code \<Rightarrow> (error option \<times> op_param option) comp" where
  "get_operational_params tr c =
     bind_c (case c of CodeInt i \<Rightarrow> raise_c TypeError
                     | CodeStr w \<Rightarrow> lift_c (build_cmd ''0006'' ''000B'' (BytWord w))) (\<lambda>msg.
     bind_c (request tr msg GET_OP_PARAMS) (\<lambda>(error, res).
       if error = None then
         (case res of
            None \<Rightarrow> raise_c TypeError
          | Some r \<Rightarrow>
              if accepted GET_OP_PARAMS r then
                (let rep = from_bytes_big (slice 8 10 r)
                 in unit_c (None, Some \<lparr>param = code_to_param (CodeInt rep),
                                         val = from_bytes_big (drop 10 r)\<rparr>))
              else unit_c (Some Unable_to_get_operational_parameters, None))
       else unit_c (error, None)))"

definition get_event_mask :: "env \<Rightarrow> (error option \<times> event_mask option) comp" where
  "get_event_mask tr =
     bind_c (lift_c (build_cmd ''0004'' ''0015'' NoWord)) (\<lambda>msg.
     bind_c (request tr msg GET_EVENT_MASK) (\<lambda>(error, res).
       if error = None then
         (case res of
            None \<Rightarrow> raise_c TypeError
          | Some r \<Rightarrow>
              if accepted GET_EVENT_MASK r then
                (let mask_32bits = from_bytes_big (drop 8 r)
                 in unit_c (None, Some \<lparr>tag_seen = bit_status mask_32bits 0,
                                         tag_removed = bit_status mask_32bits 1,
                                         tag_power_change = bit_status mask_32bits 2,
                                         tag_report_timeout = bit_status mask_32bits 3,
                                         gen2_op_completed = bit_status mask_32bits 4,
                                         gen2_op_timeout = bit_status mask_32bits 5\<rparr>))
              else unit_c (Some Unable_to_get_event_mask, None))
       else unit_c (error, None)))"

definition get_op_region :: "env \<Rightarrow> (error option \<times> string option) comp" where
  "get_op_region tr =
     bind_c (lift_c (build_cmd ''0004'' ''0003'' NoWord)) (\<lambda>msg.
     bind_c (request tr msg GET_OP_REGION) (\<lambda>(error, res).
       if error = None then
         (case res of
            None \<Rightarrow> raise_c TypeError
          | Some r \<Rightarrow>
              if accepted GET_OP_REGION r then
                bind_c (decode tr (slice 8 11 r)) (\<lambda>op_region. unit_c (None, Some op_region))
              else unit_c (Some Unable_to_get_operating_region, None))
       else unit_c (error, None)))"

definition get_tx_power :: "env \<Rightarrow> (error option \<times> tx_power option) comp" where
  "get_tx_power tr =
     bind_c (lift_c (build_cmd ''0004'' ''0006'' NoWord)) (\<lambda>msg.
     bind_c (request tr msg GET_TX_POWER) (\<lambda>(error, res).
       if error = None then
         (case res of
            None \<Rightarrow> raise_c TypeError
          | Some r \<Rightarrow>
              if accepted GET_TX_POWER r then
                unit_c (None, Some \<lparr>ant1power = real_of_int (from_bytes_big (slice 8 10 r)) / 100,
                                     ant2power = real_of_int (from_bytes_big (slice 10 12 r)) / 100,
                                     ant3power = real_of_int (from_bytes_big (slice 12 14 r)) / 100,
                                     ant4power = real_of_int (from_bytes_big (slice 14 16 r)) / 100\<rparr>)
              else unit_c (Some Unable_to_get_TX_power, None))
       else unit_c (error, None)))"

definition reply_reason_of :: "int \<Rightarrow> string" where
  "reply_reason_of rep =
     (if rep = 1 then ''New Tag Seen''
      else if rep = 2 then ''Tag Removed''
      else if rep = 3 then ''Power Changed''
      else if rep = 4 then ''GEN2 Op Completed''
      else if rep = 5 then ''Tag Report Timeout''
      else if rep = 6 then ''Report Requested''
      else ''Not defined'')"

definition get_tag_report :: "env \<Rightarrow> (error option \<times> tag_report option) comp" where
  "get_tag_report tr =
     bind_c (lift_c (build_cmd ''0006'' ''0009'' (BytWord ''0000''))) (\<lambda>msg.
     bind_c (request tr msg GET_TAG_REPORT) (\<lambda>(error, res).
       if error = None then
         (case res of
            None \<Rightarrow> raise_c TypeError
          | Some r \<Rightarrow>
              if accepted GET_TAG_REPORT r then
                unit_c (None, Some \<lparr>replyReason = reply_reason_of (from_bytes_big (slice 8 10 r)),
                                     powerRSSIRaw = from_bytes_big_signed (slice 10 12 r),
                                     powerdBm = from_bytes_big_signed (slice 12 14 r),
                                     timestamp = from_bytes_big (slice 14 18 r),
                                     antenna = from_bytes_big (slice 18 20 r),
                                     epcLength = from_bytes_big (drop 20 r)\<rparr>)
              else unit_c (Some Unable_to_get_a_tag_report, None))
       else unit_c (error, None)))"

definition get_ant_enables :: "env \<Rightarrow> (error option \<times> ant_enables option) comp" where
  "get_ant_enables tr =
     bind_c (lift_c (build_cmd ''0004'' ''000F'' NoWord)) (\<lambda>msg.
     bind_c (request tr msg GET_ANT_ENABLES) (\<lambda>(error, res).
       if error = None then
         (case res of
            None \<Rightarrow> raise_c TypeError
          | Some r \<Rightarrow>
              if accepted GET_ANT_ENABLES r then
                (let bit_vector = from_bytes_big (drop 8 r)
                 in unit_c (None, Some \<lparr>ant1enables = bit_status bit_vector 0,
                                         ant2enables = bit_status bit_vector 1,
                                         ant3enables = bit_status bit_vector 2,
                                         ant4enables = bit_status bit_vector 3\<rparr>))
              else unit_c (Some Unable_to_get_antenna_enables, None))
       else unit_c (error, None)))"

definition op_state_of :: "int \<Rightarrow> string" where
  "op_state_of rep =
     (if rep = 0 then ''Idle''
      else if rep = 1 then ''CW Test''
      else if rep = 2 then ''PRBS Test''
      else if rep = 3 then ''ETSI Burst Test''
      else if rep = 4 then ''Tag Read''
      else if rep = 5 then ''Over Temp''
      else if rep = 6 then ''Reader_Error''
      else if rep = 7 then ''Hard_Reset''
      else if rep = 8 then ''SW_Mismatch''
      else if rep = 9 then ''Bootloader''
      else ''Not defined'')"

definition get_op_state :: "env \<Rightarrow> (error option \<times> string option) comp" where
  "get_op_state tr =
     bind_c (lift_c (build_cmd ''0004'' ''000D'' NoWord)) (\<lambda>msg.
     bind_c (request tr msg GET_OP_STATE) (\<lambda>(error, res).
       if error = None then
         (case res of
            None \<Rightarrow> raise_c TypeError
          | Some r \<Rightarrow>
              if accepted GET_OP_STATE r then
                unit_c (None, Some (op_state_of (from_bytes_big (slice 10 12 r))))
              else unit_c (Some Unable_to_get_operating_state, None))
       else unit_c (error, None)))"

section \<open>The set operations\<close>

text \<open>
  The block that \<open>set_operational_param\<close>, \<open>set_event_mask\<close>, \<open>set_tx_power\<close>,
  \<open>set_ant_enables\<close> and \<open>set_op_state\<close> run after building their message: send,
  and if that gave no error wait one second, take one response, and if it is empty
  go into \<open>wait_for_response_long\<close>.
\<close>

definition request_set :: "env \<Rightarrow> bytes \<Rightarrow> bytes \<Rightarrow> (error option \<times> bytes option) comp" where
  "request_set tr msg opcode =
     bind_c (send_cmd tr msg) (\<lambda>error.
       if error = None then
         bind_c (wait_ms 1000) (\<lambda>_.
         bind_c (wait_for_response_short tr (PyBytes opcode)) (\<lambda>(error, res).
           if res = [] then wait_for_response_long tr (PyBytes opcode)
           else unit_c (error, Some res)))
       else unit_c (error, None))"

text \<open>
  The test \<open>not res[6:8] == STATUS_SUCCESS and res[4:6] == OPCODE\<close> of these five
  operations. In Python \<open>not\<close> binds tighter than \<open>and\<close>, so this is
  \<open>(not (res[6:8] == STATUS_SUCCESS)) and (res[4:6] == OPCODE)\<close>. The first argument
  is the end of the status slice: 8, and 10 in \<open>set_event_mask\<close>.
\<close>

definition refused :: "nat \<Rightarrow> bytes \<Rightarrow> bytes \<Rightarrow> bool" where
  "refused j opcode res = (slice 6 j res \<noteq> STATUS_SUCCESS \<and> slice 4 6 res = opcode)"

definition set_operational_param :: "env \<Rightarrow> code \<Rightarrow> int \<Rightarrow> (error option) comp" where
  "set_operational_param tr c v =
     bind_c (case c of CodeInt i \<Rightarrow> raise_c TypeError
                     | CodeStr w \<Rightarrow> lift_c (build_cmd ''000A'' ''000A'' (Uint32Word w v))) (\<lambda>msg.
     bind_c (request_set tr msg SET_OP_PARAMS) (\<lambda>(error, res).
       if error = None then
         (case res of
            None \<Rightarrow> raise_c TypeError
          | Some r \<Rightarrow>
              if refused 8 SET_OP_PARAMS r
              then unit_c (Some (Unable_to_set_param (code_to_param c) v))
              else unit_c None)
       else unit_c error))"

definition set_event_mask ::
  "env \<Rightarrow> int \<Rightarrow> int \<Rightarrow> int \<Rightarrow> int \<Rightarrow> int \<Rightarrow> int \<Rightarrow> (error option) comp" where
  "set_event_mask tr tag_seen' tag_removed' tag_power_change' tag_report_timeout'
       gen2_op_completed' gen2_op_timeout' =
     bind_c (lift_c (create_event_mask tag_seen' tag_removed' tag_power_change'
                       tag_report_timeout' gen2_op_completed' gen2_op_timeout')) (\<lambda>event_mask.
     bind_c (lift_c (build_cmd ''0008'' ''0014'' (Int32Word event_mask))) (\<lambda>msg.
     bind_c (request_set tr msg SET_EVENT_MASK) (\<lambda>(error, res).
       if error = None then
         (case res of
            None \<Rightarrow> raise_c TypeError
          | Some r \<Rightarrow>
              if refused 10 SET_EVENT_MASK r then unit_c (Some Unable_to_set_event_mask)
              else unit_c None)
       else unit_c error)))"

text \<open>\<open>set_op_region\<close> takes its one response without waiting first and has no long
  wait; its test has three branches.\<close>

definition set_op_region :: "env \<Rightarrow> string \<Rightarrow> (error option) comp" where
  "set_op_region tr opRegion' =
     bind_c (lift_c (build_cmd (int_to_hex_string (4 + length opRegion' + 1)) ''0002''
                       (StrWord opRegion'))) (\<lambda>msg.
     bind_c (send_cmd tr msg) (\<lambda>error.
     bind_c (if error = None then
               bind_c (wait_for_response_short tr (PyBytes SET_OP_REGION)) (\<lambda>(error, res).
                 unit_c (error, Some res))
             else unit_c (error, None)) (\<lambda>(error, res).
       if error = None then
         (case res of
            None \<Rightarrow> raise_c TypeError
          | Some r \<Rightarrow>
              if slice 6 8 r = STATUS_SUCCESS \<and> slice 4 6 r = SET_OP_REGION then unit_c None
              else if slice 6 8 r \<noteq> STATUS_SUCCESS
              then unit_c (Some (Invalid_operating_region opRegion'))
              else unit_c (Some Unable_to_set_operating_region))
       else unit_c error)))"

text \<open>The arguments are \<open>ant_power1\<close> to \<open>ant_power4\<close> of lines 670 to 673.\<close>

definition set_tx_power :: "env \<Rightarrow> int \<Rightarrow> int \<Rightarrow> int \<Rightarrow> int \<Rightarrow> (error option) comp" where
  "set_tx_power tr ant_power1 ant_power2 ant_power3 ant_power4 =
     bind_c (lift_c (build_cmd ''000C'' ''0005''
                       (IntWords ant_power1 ant_power2 ant_power3 ant_power4))) (\<lambda>msg.
     bind_c (request_set tr msg SET_TX_POWER) (\<lambda>(error, res).
       if error = None then
         (case res of
            None \<Rightarrow> raise_c TypeError
          | Some r \<Rightarrow>
              if refused 8 SET_TX_POWER r
              then unit_c (Some (Unable_to_set_tx_power ant_power1 ant_power2 ant_power3 ant_power4))
              else unit_c None)
       else unit_c error))"

definition set_ant_enables :: "env \<Rightarrow> int \<Rightarrow> int \<Rightarrow> int \<Rightarrow> int \<Rightarrow> (error option) comp" where
  "set_ant_enables tr ant1Enables' ant2Enables' ant3Enables' ant4Enables' =
     bind_c (lift_c (pack_ant_enables ant1Enables' ant2Enables' ant3Enables' ant4Enables'))
       (\<lambda>ant_enables'.
     bind_c (lift_c (build_cmd ''0006'' ''000E'' (IntWord ant_enables'))) (\<lambda>msg.
     bind_c (request_set tr msg SET_ANT_ENABLES) (\<lambda>(error, res).
       if error = None then
         (case res of
            None \<Rightarrow> raise_c TypeError
          | Some r \<Rightarrow>
              if refused 8 SET_ANT_ENABLES r then unit_c (Some Unable_to_set_antenna_enables)
              else unit_c None)
       else unit_c error)))"

definition IDLE :: string where "IDLE = ''0000''"
definition TAG_READ :: string where "TAG_READ = ''0004''"

definition set_op_state :: "env \<Rightarrow> string \<Rightarrow> (error option) comp" where
  "set_op_state tr op_state =
     bind_c (lift_c (build_cmd ''0006'' ''000C'' (BytWord op_state))) (\<lambda>msg.
     bind_c (request_set tr msg SET_OP_STATE) (\<lambda>(error, res).
       if error = None then
         (case res of
            None \<Rightarrow> raise_c TypeError
          | Some r \<Rightarrow>
              if refused 8 SET_OP_STATE r
              then unit_c (Some (Unable_to_set_operating_state op_state))
              else unit_c None)
       else unit_c error))"

section \<open>Keep-alive\<close>

definition REC_TIMEOUT :: int where "REC_TIMEOUT = 1"

text \<open>
  The loop of \<open>keep_alive\<close>. It calls \<open>wait_for_response_short(self.REC_TIMEOUT)\<close>,
  so the integer lands in the parameter \<open>set_response\<close>. The response that comes
  back is a \<open>bytes\<close> object, so the test \<open>not (res is None) and (res != b'')\<close> is
  \<open>res != b''\<close>.
\<close>

function keep_alive_loop ::
  "env \<Rightarrow> bytes \<Rightarrow> nat \<Rightarrow> error option \<Rightarrow> bytes option \<Rightarrow> (error option \<times> bytes option) comp" where
  "keep_alive_loop tr msg count error res s =
     (if count < 15 then
        (case send_cmd tr msg s of
           (Inl e, s1) \<Rightarrow> (Inl e, s1)
         | (Inr error1, s1) \<Rightarrow>
             if error1 = None then
               (case wait_for_response_short tr (PyInt REC_TIMEOUT) s1 of
                  (Inl e, s2) \<Rightarrow> (Inl e, s2)
                | (Inr (error2, res2), s2) \<Rightarrow>
                    if res2 \<noteq> [] then (Inr (error2, Some res2), s2)
                    else keep_alive_loop tr msg (count + 1) error2 (Some res2)
                           (snd (wait_ms 1000 s2)))
             else keep_alive_loop tr msg (count + 1) error1 res (snd (wait_ms 1000 s1)))
      else (Inr (error, res), s))"
  by pat_completeness auto
termination
  by (relation "measure (\<lambda>(tr, msg, count, error, res, s). 15 - count)") auto

declare keep_alive_loop.simps [simp del]

definition keep_alive :: "env \<Rightarrow> (error option \<times> bool option) comp" where
  "keep_alive tr =
     bind_c (lift_c (build_cmd ''0004'' ''0001'' NoWord)) (\<lambda>msg.
     bind_c (keep_alive_loop tr msg 0 None None) (\<lambda>(error, res).
       if error = None then
         (case res of
            None \<Rightarrow> raise_c TypeError
          | Some r \<Rightarrow>
              if accepted KEEP_ALIVE r then unit_c (None, Some True)
              else unit_c (Some Unable_to_keep_UHF_module_alive, None))
       else unit_c (error, None)))"

section \<open>One pass of the loop of \<open>start_reading\<close>\<close>

text \<open>
  The model covers one pass of the body of \<open>while True\<close>, after the port has been
  opened. The local variables of the pass are the entries of \<open>meta_data\<close>; all of
  them start as \<open>None\<close>.
\<close>

definition no_errors :: error_all where
  "no_errors = \<lparr>err_keep_alive = None, err_opSate_set = None, err_opRegion_set = None,
                 err_SET_TX_POWER = None, err_SET_ANT_ENABLES = None, err_version_get = None,
                 err_temp_get = None, err_op_reg_get = None, err_tx_power_get = None,
                 err_GET_ANT_ENABLES = None, err_op_state_get = None,
                 err_tag_report_get = None\<rparr>"

definition initial_vars :: meta_data where
  "initial_vars = \<lparr>md_error = no_errors, md_alive = None, md_version = None, md_temp = None,
                    md_op_reg = None, md_tx_power = None, md_ant_enables = None,
                    md_op_state = None, md_tag_report = None\<rparr>"

text \<open>
  The loop that waits for the producer. It may run forever, so the model counts
  its passes down from \<open>fuel\<close> and returns \<open>None\<close> when the producer has not
  asked for a reading by then. The body runs before the first test, since
  \<open>startReading\<close> starts as \<open>False\<close>.
\<close>

fun await_start ::
  "nat \<Rightarrow> env \<Rightarrow> world
     \<Rightarrow> ((exn + (params option \<times> error option \<times> bool option)) \<times> world) option" where
  "await_start 0 tr s = None"
| "await_start (Suc fuel) tr s =
     (case get_uhf_params tr s of
        (Inl e, s1) \<Rightarrow> Some (Inl e, s1)
      | (Inr (params', startReading), s1) \<Rightarrow>
          (case keep_alive tr s1 of
             (Inl e, s2) \<Rightarrow> Some (Inl e, s2)
           | (Inr (error_keep_alive, alive), s2) \<Rightarrow>
               (let s3 = snd (wait_ms 1000 s2)
                in if startReading then Some (Inr (params', error_keep_alive, alive), s3)
                   else await_start fuel tr s3)))"

text \<open>The loop that polls for a tag report, lines 1037 to 1043.\<close>

function poll_tags ::
  "env \<Rightarrow> nat \<Rightarrow> error option \<Rightarrow> tag_report option
     \<Rightarrow> (error option \<times> tag_report option) comp" where
  "poll_tags tr i error_tag_report_get tag_report' s =
     (if i < 10 then
        (case get_tag_report tr s of
           (Inl e, s1) \<Rightarrow> (Inl e, s1)
         | (Inr (error1, report1), s1) \<Rightarrow>
             (let s2 = log (Print_tag_report report1) s1
              in if report1 \<noteq> None then (Inr (error1, report1), s2)
                 else poll_tags tr (i + 1) error1 report1 s2))
      else (Inr (error_tag_report_get, tag_report'), s))"
  by pat_completeness auto
termination
  by (relation "measure (\<lambda>(tr, i, error, report, s). 10 - i)") auto

declare poll_tags.simps [simp del]

text \<open>\<open>if not error_tag_report_get\<close>: \<open>None\<close> and the empty string are false.\<close>

definition falsy :: "error option \<Rightarrow> bool" where
  "falsy e = (e = None \<or> e = Some (Transport_error []))"

definition emit :: "event \<Rightarrow> unit comp" where
  "emit ev s = (Inr (), log ev s)"

text \<open>Lines 1009 to 1030: the sets, the gets and two keep-alives.\<close>

definition configure :: "env \<Rightarrow> params \<Rightarrow> meta_data \<Rightarrow> meta_data comp" where
  "configure tr p v =
     bind_c (set_op_state tr IDLE) (\<lambda>error_set_op_state.
     bind_c (set_op_region tr (opRegion p)) (\<lambda>error_op_region_set.
     bind_c (set_tx_power tr (ant1TxPower p) (ant2TxPower p) (ant3TxPower p) (ant4TxPower p))
       (\<lambda>error_set_tx_power.
     bind_c (set_ant_enables tr (ant1Enables p) (ant2Enables p) (ant3Enables p) (ant4Enables p))
       (\<lambda>error_set_ant_enables.
     bind_c (get_version tr) (\<lambda>(error_version_get, version').
     bind_c (get_temp tr) (\<lambda>(error_temp_get, temp).
     bind_c (get_op_region tr) (\<lambda>(error_op_reg_get, op_reg).
     bind_c (get_tx_power tr) (\<lambda>(error_tx_power_get, tx_power').
     bind_c (get_ant_enables tr) (\<lambda>(error_get_ant_enables, ant_enables').
     bind_c (keep_alive tr) (\<lambda>_.
     bind_c (keep_alive tr) (\<lambda>(error_keep_alive, alive).
       unit_c (v\<lparr>md_error := (md_error v)\<lparr>
                     err_keep_alive := error_keep_alive,
                     err_opSate_set := error_set_op_state,
                     err_opRegion_set := error_op_region_set,
                     err_SET_TX_POWER := error_set_tx_power,
                     err_SET_ANT_ENABLES := error_set_ant_enables,
                     err_version_get := error_version_get,
                     err_temp_get := error_temp_get,
                     err_op_reg_get := error_op_reg_get,
                     err_tx_power_get := error_tx_power_get,
                     err_GET_ANT_ENABLES := error_get_ant_enables\<rparr>,
                  md_alive := alive, md_version := version', md_temp := temp,
                  md_op_reg := op_reg, md_tx_power := tx_power',
                  md_ant_enables := ant_enables'\<rparr>))))))))))))"

text \<open>Lines 1034 to 1052: the block under \<open>if tagReport\<close>.\<close>

definition read_tags :: "env \<Rightarrow> params \<Rightarrow> meta_data \<Rightarrow> meta_data comp" where
  "read_tags tr p v =
     bind_c (set_op_state tr TAG_READ) (\<lambda>_.
     bind_c (get_op_state tr) (\<lambda>(error_op_state_get, op_state).
     bind_c (poll_tags tr 0 (err_tag_report_get (md_error v)) (md_tag_report v))
       (\<lambda>(error_tag_report_get, tag_report').
     bind_c (set_op_state tr IDLE) (\<lambda>error_set_op_state.
     bind_c (if soundEffect p \<and> falsy error_tag_report_get
             then emit Emit_tag_detected_audio else unit_c ()) (\<lambda>_.
       unit_c (v\<lparr>md_error := (md_error v)\<lparr>
                     err_opSate_set := error_set_op_state,
                     err_op_state_get := error_op_state_get,
                     err_tag_report_get := error_tag_report_get\<rparr>,
                  md_op_state := op_state, md_tag_report := tag_report'\<rparr>))))))"

text \<open>
  Lines 991 to 1084, from \<open>set_uhf_params(False, {})\<close> to the signal: what follows
  the waiting loop, given the parameters and the result of the last keep-alive of
  that loop. Reading a key that the parameters lack raises \<open>KeyError\<close>.
\<close>

definition run_cycle ::
  "env \<Rightarrow> params option \<Rightarrow> error option \<Rightarrow> bool option \<Rightarrow> unit comp" where
  "run_cycle tr params' error_keep_alive alive =
     bind_c (emit Clear_uhf_params) (\<lambda>_.
     bind_c (let v = initial_vars\<lparr>md_error := no_errors\<lparr>err_keep_alive := error_keep_alive\<rparr>,
                                   md_alive := alive\<rparr>
             in if error_keep_alive = None then
                  (case params' of
                     None \<Rightarrow> raise_c KeyError
                   | Some p \<Rightarrow>
                       bind_c (configure tr p v) (\<lambda>v.
                         if tagReport p then read_tags tr p v else unit_c v))
                else unit_c v) (\<lambda>v.
       emit (Emit_meta_data v)))"

definition session_cycle :: "nat \<Rightarrow> env \<Rightarrow> world \<Rightarrow> ((exn + unit) \<times> world) option" where
  "session_cycle fuel tr s =
     (case await_start fuel tr s of
        None \<Rightarrow> None
      | Some (Inl e, s1) \<Rightarrow> Some (Inl e, s1)
      | Some (Inr (params', error_keep_alive, alive), s1) \<Rightarrow>
          Some (run_cycle tr params' error_keep_alive alive s1))"

section \<open>Concrete environments\<close>

text \<open>The world before anything has happened, and an outside where every send
  succeeds and every receive gives the same error and the same buffer.\<close>

definition initial_world :: world where
  "initial_world = \<lparr>n_send = 0, n_recv = 0, n_poll = 0, trace = []\<rparr>"

definition replying :: "string option \<Rightarrow> bytes \<Rightarrow> env" where
  "replying err frame =
     \<lparr>send_result = (\<lambda>n. None), recv_result = (\<lambda>n. (err, Some frame)),
      shared_params = (\<lambda>n. (None, True)), decode_utf8 = (\<lambda>bs. None)\<rparr>"

text \<open>Frames for the scenarios: the reply to a keep-alive, a temperature reply, and a
  tag report whose timestamp \<open>00 F6 28 00\<close> contains the two framing bytes.\<close>

definition keep_alive_reply :: bytes where
  "keep_alive_reply = [0xF6, 0x28, 0x00, 0x06, 0x80, 0x01, 0x00, 0x00]"

definition tag_report_frame :: bytes where
  "tag_report_frame =
     [0xF6, 0x28, 0x00, 0x14, 0x80, 0x09, 0x00, 0x00, 0x00, 0x01, 0xFF, 0xCE, 0xFF, 0xCE,
      0x00, 0xF6, 0x28, 0x00, 0x00, 0x01, 0x00, 0x0C]"

definition temp_frame :: bytes where
  "temp_frame = [0xF6, 0x28, 0x00, 0x08, 0x80, 0x13, 0x00, 0x00, 0x10, 0x64]"

text \<open>An outside where nothing ever arrives: every receive gives the error of
  \<open>serial_receive\<close> for an empty buffer.\<close>

definition no_bytes :: env where
  "no_bytes = replying (Some ''Err1: No bytes from the device'') []"

section \<open>Vocabulary for the properties\<close>

text \<open>
  The keep-alive command; the messages that a piece of trace sends; a piece of
  trace in which every send but the first comes right after a wait of one second;
  the response that \<open>wait_for_response_short\<close> makes of the \<open>j\<close>-th receive,
  and the error of that receive; the test \<open>res[4:6] == set_response\<close>.
  \<open>loop_outcome\<close> says how a retry loop ends that starts in \<open>s\<close> with
  \<open>bound\<close> attempts left and stops at a response for which \<open>stop\<close> holds:
  \<open>stop\<close> fails for every response but the last one taken; the loop raises only
  on a receive without data; if \<open>stop\<close> holds for the last response taken, the
  loop returns it with the error of that receive, right after the receive;
  otherwise all attempts have been made,
  and the result is the last response taken (or the \<open>res\<close> it started with) and
  the error of the last attempt.
\<close>

definition keep_alive_msg :: bytes where
  "keep_alive_msg = [0xF6, 0x28, 0x00, 0x04, 0x00, 0x01]"

definition response_at :: "env \<Rightarrow> pyval \<Rightarrow> nat \<Rightarrow> bytes option" where
  "response_at tr sr j = map_option (trim_response sr) (snd (recv_result tr j))"

definition receive_error_at :: "env \<Rightarrow> nat \<Rightarrow> error option" where
  "receive_error_at tr j = map_option Transport_error (fst (recv_result tr j))"

definition opcode_matches :: "pyval \<Rightarrow> bytes \<Rightarrow> bool" where
  "opcode_matches sr r = (PyBytes (slice 4 6 r) = sr)"

fun sends :: "event list \<Rightarrow> bytes list" where
  "sends [] = []"
| "sends (Send m # evs) = m # sends evs"
| "sends (ev # evs) = sends evs"

definition is_send :: "event \<Rightarrow> bool" where
  "is_send ev = (case ev of Send m \<Rightarrow> True | _ \<Rightarrow> False)"

fun paced :: "event list \<Rightarrow> bool" where
  "paced [] = True"
| "paced [ev] = True"
| "paced (ev # ev' # evs) = ((is_send ev' \<longrightarrow> ev = Wait_ms 1000) \<and> paced (ev' # evs))"

definition loop_outcome ::
  "env \<Rightarrow> pyval \<Rightarrow> (bytes \<Rightarrow> bool) \<Rightarrow> nat \<Rightarrow> error option \<Rightarrow> bytes option \<Rightarrow> world
     \<Rightarrow> (exn + error option \<times> bytes option) \<Rightarrow> world \<Rightarrow> bool" where
  "loop_outcome tr sr stop bound error res s r s' =
     ((\<forall>j. n_recv s \<le> j \<and> Suc j < n_recv s' \<longrightarrow>
          (\<exists>b. response_at tr sr j = Some b \<and> \<not> stop b))
      \<and> (case r of
            Inl x \<Rightarrow> x = AttributeError \<and> n_recv s < n_recv s'
                       \<and> response_at tr sr (n_recv s' - 1) = None
          | Inr (err, res') \<Rightarrow>
              if n_recv s < n_recv s'
                 \<and> (\<exists>b. response_at tr sr (n_recv s' - 1) = Some b \<and> stop b)
              then res' = response_at tr sr (n_recv s' - 1)
                   \<and> err = receive_error_at tr (n_recv s' - 1)
                   \<and> last (trace s') = Receive
              else n_send s' = n_send s + bound
                   \<and> res' = (if n_recv s < n_recv s' then response_at tr sr (n_recv s' - 1) else res)
                   \<and> (n_recv s < n_recv s' \<longrightarrow> response_at tr sr (n_recv s' - 1) \<noteq> None)
                   \<and> err = (if 0 < bound
                            then (case send_result tr (n_send s' - 1) of
                                    Some e \<Rightarrow> Some (Transport_error e)
                                  | None \<Rightarrow> receive_error_at tr (n_recv s' - 1))
                            else error)))"

text \<open>An outside whose third receive gives a temperature reply, after two replies to
  keep-alives, and the world after three probes.\<close>

definition third_matches :: env where
  "third_matches =
     \<lparr>send_result = (\<lambda>n. None),
      recv_result = (\<lambda>n. if n = 2 then (None, Some temp_frame) else (None, Some keep_alive_reply)),
      shared_params = (\<lambda>n. (None, True)), decode_utf8 = (\<lambda>bs. None)\<rparr>"

definition after_three_probes :: world where
  "after_three_probes =
     \<lparr>n_send = 3, n_recv = 3, n_poll = 0,
      trace = [Send keep_alive_msg, Receive, Wait_ms 1000,
               Send keep_alive_msg, Receive, Wait_ms 1000,
               Send keep_alive_msg, Receive]\<rparr>"

text \<open>An outside where the reader answers the third keep-alive, after two receives
  that bring nothing.\<close>

definition wakes_at_third :: env where
  "wakes_at_third =
     \<lparr>send_result = (\<lambda>n. None),
      recv_result = (\<lambda>n. if n < 2 then (Some ''Err1: No bytes from the device'', Some [])
                           else (None, Some keep_alive_reply)),
      shared_params = (\<lambda>n. (None, True)), decode_utf8 = (\<lambda>bs. None)\<rparr>"

text \<open>
  A piece of trace that holds nothing but sends, receives and waits. The outline of
  a piece of trace is what is left of it without the keep-alive commands, the
  receives and the waits: the other commands sent, the tag reports printed and the
  signals emitted, in their order. \<open>follows s s' steps\<close> says that the world
  \<open>s'\<close> continues \<open>s\<close> by a piece of trace with this outline.
\<close>

fun io_only :: "event list \<Rightarrow> bool" where
  "io_only [] = True"
| "io_only (Send m # evs) = io_only evs"
| "io_only (Receive # evs) = io_only evs"
| "io_only (Wait_ms n # evs) = io_only evs"
| "io_only (ev # evs) = False"

definition quiet :: "event \<Rightarrow> bool" where
  "quiet ev = (case ev of Send m \<Rightarrow> m = keep_alive_msg | Receive \<Rightarrow> True
               | Wait_ms n \<Rightarrow> True | _ \<Rightarrow> False)"

definition outline :: "event list \<Rightarrow> event list" where
  "outline evs = filter (\<lambda>ev. \<not> quiet ev) evs"

definition follows :: "world \<Rightarrow> world \<Rightarrow> event list \<Rightarrow> bool" where
  "follows s s' steps = (\<exists>evs. trace s' = trace s @ evs \<and> outline evs = steps)"

text \<open>The commands of the block that reads tags.\<close>

definition tag_read_msg :: bytes where
  "tag_read_msg = [0xF6, 0x28, 0x00, 0x06, 0x00, 0x0C, 0x00, 0x04]"

definition idle_msg :: bytes where
  "idle_msg = [0xF6, 0x28, 0x00, 0x06, 0x00, 0x0C, 0x00, 0x00]"

definition get_op_state_msg :: bytes where
  "get_op_state_msg = [0xF6, 0x28, 0x00, 0x04, 0x00, 0x0D]"

definition get_tag_report_msg :: bytes where
  "get_tag_report_msg = [0xF6, 0x28, 0x00, 0x06, 0x00, 0x09, 0x00, 0x00]"



definition silent_then_alive :: env where
  "silent_then_alive =
     \<lparr>send_result = (\<lambda>n. None),
      recv_result = (\<lambda>n. if n = 0 then (Some ''Err1: No bytes from the device'', Some [])
                           else (None, Some keep_alive_reply)),
      shared_params = (\<lambda>n. (None, True)), decode_utf8 = (\<lambda>bs. None)\<rparr>"

text \<open>What one poll for a tag report leaves in the outline: the command and the
  report printed.\<close>

definition poll :: "tag_report option \<Rightarrow> event list" where
  "poll t = [Send get_tag_report_msg, Print_tag_report t]"

section \<open>Properties\<close>

lemmas comp_defs = bind_c_def unit_c_def raise_c_def lift_c_def log_def wait_ms_def
  serial_send_def serial_receive_def send_cmd_def wait_for_response_short_def

lemmas hex_defs = build_cmd_def hex_digit_def is_space_def

lemmas trim_defs = trim_response_def cut_to_length_def select_frame_def bytes_split_def
  FRAMING_BYTES_def
  FRAMING_BYTES_LEN_def slice_def from_bytes_big_def

subsection \<open>The temperature scenario\<close>

lemma build_get_temp: "build_cmd ''0004'' ''0013'' NoWord = Inr [0xF6, 0x28, 0, 4, 0, 0x13]"
  by (simp add: hex_defs)

text \<open>
  Claim C5, as amended. When the send succeeds and the receive gives the bytes
  \<open>F6 28 00 08 80 13 00 00 10 64\<close> without an error, \<open>get_temp\<close> returns no
  error and the temperature 41.96: the payload \<open>10 64\<close> is 4196, and 4196 / 100
  is 41.96.
\<close>

theorem get_temp_scenario:
  assumes "send_result tr (n_send s) = None"
    and "recv_result tr (n_recv s) =
           (None, Some [0xF6, 0x28, 0x00, 0x08, 0x80, 0x13, 0x00, 0x00, 0x10, 0x64])"
  shows "fst (get_temp tr s) = Inr (None, Some 41.96)"
  using assms
  by (simp add: get_temp_def build_get_temp request_def comp_defs trim_defs accepted_def
        opcode_defs)

theorem get_temp_scenario_witness:
  "fst (get_temp (replying None [0xF6, 0x28, 0x00, 0x08, 0x80, 0x13, 0x00, 0x00, 0x10, 0x64])
          initial_world)
     = Inr (None, Some 41.96)"
  by (rule get_temp_scenario) (simp_all add: replying_def initial_world_def)

text \<open>The temperature that claim C5 names, 42.12, is not what these bytes give.\<close>

theorem get_temp_scenario_not_42_12:
  "fst (get_temp (replying None [0xF6, 0x28, 0x00, 0x08, 0x80, 0x13, 0x00, 0x00, 0x10, 0x64])
          initial_world)
     \<noteq> Inr (None, Some 42.12)"
  by (simp add: get_temp_def build_get_temp request_def comp_defs trim_defs accepted_def
        opcode_defs replying_def initial_world_def)

subsection \<open>Resynchronisation in \<open>wait_for_response_short\<close>\<close>

lemma split_from_framing_Cons:
  "split_from FRAMING_BYTES cur (x # xs) =
     (if x = 0xF6 \<and> (\<exists>ys. xs = 0x28 # ys) then rev cur # split_from FRAMING_BYTES [] (tl xs)
      else split_from FRAMING_BYTES (x # cur) xs)"
  by (cases xs) (auto simp: FRAMING_BYTES_def)

lemma sublist_framing_Cons:
  "sublist FRAMING_BYTES (x # xs) \<longleftrightarrow> (x = 0xF6 \<and> (\<exists>ys. xs = 0x28 # ys)) \<or> sublist FRAMING_BYTES xs"
  by (cases xs) (auto simp: sublist_Cons_right FRAMING_BYTES_def)

lemma split_from_no_marker:
  "\<not> sublist FRAMING_BYTES xs \<Longrightarrow> split_from FRAMING_BYTES cur xs = [rev cur @ xs]"
proof (induction xs arbitrary: cur)
  case Nil
  show ?case by simp
next
  case (Cons x xs)
  from Cons.prems have 1: "\<not> (x = 0xF6 \<and> (\<exists>ys. xs = 0x28 # ys))" and 2: "\<not> sublist FRAMING_BYTES xs"
    by (simp_all add: sublist_framing_Cons)
  from 1 have "split_from FRAMING_BYTES cur (x # xs) = split_from FRAMING_BYTES (x # cur) xs"
    by (simp only: split_from_framing_Cons if_False)
  with Cons.IH[OF 2] show ?case by simp
qed

lemma split_from_first:
  "\<not> sublist FRAMING_BYTES a \<Longrightarrow>
     split_from FRAMING_BYTES cur (a @ FRAMING_BYTES @ b) = (rev cur @ a) # split_from FRAMING_BYTES [] b"
proof (induction a arbitrary: cur)
  case Nil
  show ?case by (simp add: FRAMING_BYTES_def)
next
  case (Cons x a)
  from Cons.prems have 1: "\<not> (x = 0xF6 \<and> (\<exists>ys. a = 0x28 # ys))" and 2: "\<not> sublist FRAMING_BYTES a"
    by (simp_all add: sublist_framing_Cons)
  have "\<not> (x = 0xF6 \<and> (\<exists>ys. a @ FRAMING_BYTES @ b = 0x28 # ys))"
    using 1 by (cases a) (auto simp: FRAMING_BYTES_def)
  then have "split_from FRAMING_BYTES cur ((x # a) @ FRAMING_BYTES @ b)
               = split_from FRAMING_BYTES (x # cur) (a @ FRAMING_BYTES @ b)"
    by (simp only: append_Cons split_from_framing_Cons if_False)
  with Cons.IH[OF 2] show ?case by simp
qed

lemma split_from_not_Nil: "split_from sep cur xs \<noteq> []"
  by (induction sep cur xs rule: split_from.induct) auto

lemma leftmost_marker:
  "sublist FRAMING_BYTES xs \<Longrightarrow> \<exists>a b. xs = a @ FRAMING_BYTES @ b \<and> \<not> sublist FRAMING_BYTES a"
proof (induction xs)
  case Nil
  then show ?case by (simp add: FRAMING_BYTES_def)
next
  case (Cons x xs)
  show ?case
  proof (cases "x = 0xF6 \<and> (\<exists>ys. xs = 0x28 # ys)")
    case True
    then obtain ys where "x # xs = [] @ FRAMING_BYTES @ ys" by (auto simp: FRAMING_BYTES_def)
    moreover have "\<not> sublist FRAMING_BYTES []" by (simp add: FRAMING_BYTES_def)
    ultimately show ?thesis by blast
  next
    case False
    with Cons.prems have "sublist FRAMING_BYTES xs" by (simp add: sublist_framing_Cons)
    from Cons.IH[OF this] obtain a b where ab: "xs = a @ FRAMING_BYTES @ b" "\<not> sublist FRAMING_BYTES a"
      by blast
    have "\<not> (x = 0xF6 \<and> (\<exists>ys. a = 0x28 # ys))" using False ab(1) by auto
    with ab(2) have "\<not> sublist FRAMING_BYTES (x # a)" by (simp add: sublist_framing_Cons)
    moreover have "x # xs = (x # a) @ FRAMING_BYTES @ b" using ab(1) by simp
    ultimately show ?thesis by blast
  qed
qed

lemma fragments_ge2: "2 \<le> length (split_from FRAMING_BYTES cur xs) \<longleftrightarrow> sublist FRAMING_BYTES xs"
proof
  assume "2 \<le> length (split_from FRAMING_BYTES cur xs)"
  then show "sublist FRAMING_BYTES xs"
    using split_from_no_marker[of xs cur] by (cases "sublist FRAMING_BYTES xs") auto
next
  assume "sublist FRAMING_BYTES xs"
  from leftmost_marker[OF this] obtain a b where "xs = a @ FRAMING_BYTES @ b" "\<not> sublist FRAMING_BYTES a"
    by blast
  then show "2 \<le> length (split_from FRAMING_BYTES cur xs)"
    using split_from_first[of a cur b] split_from_not_Nil[of FRAMING_BYTES "[]" b]
    by (cases "split_from FRAMING_BYTES [] b") auto
qed

lemma marker_twice_cases:
  assumes eq: "a' @ FRAMING_BYTES @ r = a @ FRAMING_BYTES @ rest"
    and a': "\<not> sublist FRAMING_BYTES a'"
    and rest: "sublist FRAMING_BYTES rest"
  shows "sublist FRAMING_BYTES r"
proof -
  from append_eq_append_conv2[THEN iffD1, OF eq] obtain us where
    "(a' = a @ us \<and> us @ FRAMING_BYTES @ r = FRAMING_BYTES @ rest)
     \<or> (a' @ us = a \<and> FRAMING_BYTES @ r = us @ FRAMING_BYTES @ rest)"
    by blast
  then show ?thesis
  proof
    assume h: "a' = a @ us \<and> us @ FRAMING_BYTES @ r = FRAMING_BYTES @ rest"
    show ?thesis
    proof (cases us)
      case Nil
      with h rest show ?thesis by simp
    next
      case (Cons u us1)
      show ?thesis
      proof (cases us1)
        case Nil
        with h Cons show ?thesis by (simp add: FRAMING_BYTES_def)
      next
        case (Cons v us2)
        with h \<open>us = u # us1\<close> have "a' = a @ FRAMING_BYTES @ us2" by (simp add: FRAMING_BYTES_def)
        with a' show ?thesis by simp
      qed
    qed
  next
    assume h: "a' @ us = a \<and> FRAMING_BYTES @ r = us @ FRAMING_BYTES @ rest"
    show ?thesis
    proof (cases us)
      case Nil
      with h rest show ?thesis by simp
    next
      case (Cons u us1)
      show ?thesis
      proof (cases us1)
        case Nil
        with h Cons show ?thesis by (simp add: FRAMING_BYTES_def)
      next
        case (Cons v us2)
        with h \<open>us = u # us1\<close> have "r = us2 @ FRAMING_BYTES @ rest" by (simp add: FRAMING_BYTES_def)
        then show ?thesis by simp
      qed
    qed
  qed
qed

lemma marker_twice_iff:
  "2 < length (bytes_split FRAMING_BYTES buf)
     \<longleftrightarrow> (\<exists>a b c. buf = a @ FRAMING_BYTES @ b @ FRAMING_BYTES @ c)"
proof
  assume len: "2 < length (bytes_split FRAMING_BYTES buf)"
  then have "2 \<le> length (split_from FRAMING_BYTES [] buf)" by (simp add: bytes_split_def)
  then have "sublist FRAMING_BYTES buf" by (simp only: fragments_ge2)
  from leftmost_marker[OF this] obtain a r where
    ar: "buf = a @ FRAMING_BYTES @ r" "\<not> sublist FRAMING_BYTES a" by blast
  have "split_from FRAMING_BYTES [] buf = a # split_from FRAMING_BYTES [] r"
    using split_from_first[OF ar(2), of "[]" r] ar(1) by simp
  with len have "2 \<le> length (split_from FRAMING_BYTES [] r)" by (simp add: bytes_split_def)
  then have "sublist FRAMING_BYTES r" by (simp only: fragments_ge2)
  then obtain b c where "r = b @ FRAMING_BYTES @ c" by (auto simp: sublist_def)
  with ar(1) show "\<exists>a b c. buf = a @ FRAMING_BYTES @ b @ FRAMING_BYTES @ c" by blast
next
  assume "\<exists>a b c. buf = a @ FRAMING_BYTES @ b @ FRAMING_BYTES @ c"
  then obtain a b c where abc: "buf = a @ FRAMING_BYTES @ b @ FRAMING_BYTES @ c" by blast
  then have "sublist FRAMING_BYTES buf" by simp
  from leftmost_marker[OF this] obtain a' r where
    ar: "buf = a' @ FRAMING_BYTES @ r" "\<not> sublist FRAMING_BYTES a'" by blast
  have "sublist FRAMING_BYTES (b @ FRAMING_BYTES @ c)" by simp
  with ar abc have "sublist FRAMING_BYTES r"
    using marker_twice_cases[of a' r a "b @ FRAMING_BYTES @ c"] by simp
  then have "2 \<le> length (split_from FRAMING_BYTES [] r)" by (simp only: fragments_ge2)
  moreover have "split_from FRAMING_BYTES [] buf = a' # split_from FRAMING_BYTES [] r"
    using split_from_first[OF ar(2), of "[]" r] ar(1) by simp
  ultimately show "2 < length (bytes_split FRAMING_BYTES buf)" by (simp add: bytes_split_def)
qed

lemma wait_for_response_short_result:
  "recv_result tr (n_recv s) = (err, Some buf) \<Longrightarrow>
     fst (wait_for_response_short tr set_response s)
       = Inr (map_option Transport_error err, trim_response set_response buf)"
  by (simp add: wait_for_response_short_def bind_c_def serial_receive_def unit_c_def)

lemma split_two_frames:
  assumes "\<not> sublist FRAMING_BYTES sbody" and "\<not> sublist FRAMING_BYTES tbody"
  shows "bytes_split FRAMING_BYTES ((FRAMING_BYTES @ sbody) @ (FRAMING_BYTES @ tbody))
           = [[], sbody, tbody]"
proof -
  have "\<not> sublist FRAMING_BYTES []" by (simp add: FRAMING_BYTES_def)
  from split_from_first[OF this, of "[]" "sbody @ FRAMING_BYTES @ tbody"]
  have "split_from FRAMING_BYTES [] (FRAMING_BYTES @ sbody @ FRAMING_BYTES @ tbody)
          = [] # split_from FRAMING_BYTES [] (sbody @ FRAMING_BYTES @ tbody)" by simp
  also have "split_from FRAMING_BYTES [] (sbody @ FRAMING_BYTES @ tbody)
          = sbody # split_from FRAMING_BYTES [] tbody"
    using split_from_first[OF assms(1), of "[]" tbody] by simp
  also have "split_from FRAMING_BYTES [] tbody = [tbody]"
    using split_from_no_marker[OF assms(2), of "[]"] by simp
  finally show ?thesis by (simp add: bytes_split_def)
qed

lemma split_two_frames_junk:
  assumes "\<not> sublist FRAMING_BYTES sbody" and "\<not> sublist FRAMING_BYTES (tbody @ junk)"
  shows "bytes_split FRAMING_BYTES ((FRAMING_BYTES @ sbody) @ (FRAMING_BYTES @ tbody) @ junk)
           = [[], sbody, tbody @ junk]"
  using split_two_frames[OF assms] by simp

lemma slice_within: "j \<le> length xs \<Longrightarrow> slice i j (xs @ ys) = slice i j xs"
  by (simp add: slice_def)

lemma framing_not_Nil: "FRAMING_BYTES \<noteq> []"
  by (simp add: FRAMING_BYTES_def)

lemma no_marker_simps:
  "\<not> sublist FRAMING_BYTES [0x00, 0x06, 0x80, 0x01, 0x00, 0x00]"
  "\<not> sublist FRAMING_BYTES [0x00, 0x08, 0x80, 0x13, 0x00, 0x00, 0x10, 0x64]"
  by (simp_all add: sublist_framing_Cons framing_not_Nil)

lemma no_marker_junk:
  "\<not> sublist FRAMING_BYTES ([0x00, 0x08, 0x80, 0x13, 0x00, 0x00, 0x10, 0x64] @ [0xAA, 0xBB])"
  by (simp add: sublist_framing_Cons framing_not_Nil)

text \<open>
  Claim C1, as amended. For a buffer that the transport returns and any value passed
  as \<open>set_response\<close>: if the two framing bytes occur at least twice in the buffer,
  \<open>wait_for_response_short\<close> takes the third piece of the split with the framing
  bytes in front when the bytes 4 and 5 of that candidate equal \<open>set_response\<close>,
  and the second piece with the framing bytes in front otherwise (always so when
  \<open>set_response\<close> is an integer, as in the call from \<open>keep_alive\<close>); if they
  occur at most once, it takes the buffer as it is. The result is the first \<open>n + 2\<close>
  bytes of what it has taken, where \<open>n\<close> is the big-endian number in the bytes 2
  and 3 of what it has taken. In particular, for a buffer made of a stray frame (such
  as a keep-alive reply), then the target frame, then any trailing bytes, where the
  framing bytes occur neither in the stray frame after its first two bytes nor in
  the target frame with the trailing bytes after its first two bytes, the target
  frame has at least 6 bytes, its bytes 4 and 5 are the expected opcode, passed as
  bytes, and its length field plus 2 is its length, the result is the target frame:
  the stray frame and the trailing bytes are dropped.
\<close>

theorem wait_for_response_short_resync:
  assumes recv: "recv_result tr (n_recv s) = (err, Some buf)"
  shows
    "((\<exists>a b c. buf = a @ FRAMING_BYTES @ b @ FRAMING_BYTES @ c) \<longrightarrow>
        (let third = FRAMING_BYTES @ bytes_split FRAMING_BYTES buf ! 2;
             second = FRAMING_BYTES @ bytes_split FRAMING_BYTES buf ! 1;
             frame = (if PyBytes (slice 4 6 third) = set_response then third else second)
         in fst (wait_for_response_short tr set_response s)
              = Inr (map_option Transport_error err,
                     take (nat (from_bytes_big (slice 2 4 frame) + 2)) frame)))
     \<and> (\<not> (\<exists>a b c. buf = a @ FRAMING_BYTES @ b @ FRAMING_BYTES @ c) \<longrightarrow>
        fst (wait_for_response_short tr set_response s)
          = Inr (map_option Transport_error err,
                 take (nat (from_bytes_big (slice 2 4 buf) + 2)) buf))
     \<and> (\<forall>sbody tbody junk.
          buf = (FRAMING_BYTES @ sbody) @ (FRAMING_BYTES @ tbody) @ junk
          \<and> \<not> sublist FRAMING_BYTES sbody \<and> \<not> sublist FRAMING_BYTES (tbody @ junk)
          \<and> 4 \<le> length tbody
          \<and> set_response = PyBytes (slice 4 6 (FRAMING_BYTES @ tbody))
          \<and> from_bytes_big (slice 2 4 (FRAMING_BYTES @ tbody)) + 2
               = int (length (FRAMING_BYTES @ tbody)) \<longrightarrow>
          fst (wait_for_response_short tr set_response s)
            = Inr (map_option Transport_error err, FRAMING_BYTES @ tbody))"
proof (intro conjI impI allI)
  assume "\<exists>a b c. buf = a @ FRAMING_BYTES @ b @ FRAMING_BYTES @ c"
  then have "2 < length (bytes_split FRAMING_BYTES buf)" by (simp only: marker_twice_iff)
  then show "let third = FRAMING_BYTES @ bytes_split FRAMING_BYTES buf ! 2;
             second = FRAMING_BYTES @ bytes_split FRAMING_BYTES buf ! 1;
             frame = (if PyBytes (slice 4 6 third) = set_response then third else second)
         in fst (wait_for_response_short tr set_response s)
              = Inr (map_option Transport_error err,
                     take (nat (from_bytes_big (slice 2 4 frame) + 2)) frame)"
    by (simp add: wait_for_response_short_result[OF recv] trim_response_def select_frame_def
          cut_to_length_def FRAMING_BYTES_LEN_def Let_def)
next
  assume "\<not> (\<exists>a b c. buf = a @ FRAMING_BYTES @ b @ FRAMING_BYTES @ c)"
  then have "\<not> 2 < length (bytes_split FRAMING_BYTES buf)" by (simp add: marker_twice_iff)
  then show "fst (wait_for_response_short tr set_response s)
          = Inr (map_option Transport_error err,
                 take (nat (from_bytes_big (slice 2 4 buf) + 2)) buf)"
    by (simp add: wait_for_response_short_result[OF recv] trim_response_def select_frame_def
          cut_to_length_def FRAMING_BYTES_LEN_def Let_def)
next
  fix sbody tbody junk
  assume h: "buf = (FRAMING_BYTES @ sbody) @ (FRAMING_BYTES @ tbody) @ junk
          \<and> \<not> sublist FRAMING_BYTES sbody \<and> \<not> sublist FRAMING_BYTES (tbody @ junk)
          \<and> 4 \<le> length tbody
          \<and> set_response = PyBytes (slice 4 6 (FRAMING_BYTES @ tbody))
          \<and> from_bytes_big (slice 2 4 (FRAMING_BYTES @ tbody)) + 2
               = int (length (FRAMING_BYTES @ tbody))"
  let ?target = "FRAMING_BYTES @ tbody"
  from h have frags: "bytes_split FRAMING_BYTES buf = [[], sbody, tbody @ junk]"
    using split_two_frames_junk[of sbody tbody junk] by simp
  have len: "6 \<le> length ?target" using h by (simp add: FRAMING_BYTES_def)
  have opc: "slice 4 6 (?target @ junk) = slice 4 6 ?target"
    using slice_within[of 6 ?target 4 junk] len by simp
  have lenf: "slice 2 4 (?target @ junk) = slice 2 4 ?target"
    using slice_within[of 4 ?target 2 junk] len by simp
  have sr: "set_response = PyBytes (slice 4 6 ?target)" using h by simp
  have "select_frame set_response buf = ?target @ junk"
    unfolding select_frame_def frags using opc sr by simp
  moreover have "cut_to_length (?target @ junk) = ?target"
  proof -
    from h have "nat (from_bytes_big (slice 2 4 ?target) + 2) = length ?target" by simp
    then show ?thesis
      unfolding cut_to_length_def Let_def FRAMING_BYTES_LEN_def lenf by simp
  qed
  ultimately show "fst (wait_for_response_short tr set_response s)
            = Inr (map_option Transport_error err, FRAMING_BYTES @ tbody)"
    by (simp add: wait_for_response_short_result[OF recv] trim_response_def)
qed

theorem wait_for_response_short_resync_witness:
  "fst (wait_for_response_short (replying None (keep_alive_reply @ temp_frame @ [0xAA, 0xBB]))
          (PyBytes GET_TEMP) initial_world)
     = Inr (None, temp_frame)"
  using wait_for_response_short_resync[of "replying None (keep_alive_reply @ temp_frame @ [0xAA, 0xBB])"
      initial_world None "keep_alive_reply @ temp_frame @ [0xAA, 0xBB]" "PyBytes GET_TEMP",
      THEN conjunct2, THEN conjunct2, THEN spec, THEN spec, THEN spec,
      of "[0x00, 0x06, 0x80, 0x01, 0x00, 0x00]" "[0x00, 0x08, 0x80, 0x13, 0x00, 0x00, 0x10, 0x64]"
         "[0xAA, 0xBB]"]
    no_marker_simps(1) no_marker_junk
  by (simp add: replying_def initial_world_def keep_alive_reply_def temp_frame_def
      FRAMING_BYTES_def GET_TEMP_def slice_def from_bytes_big_def)

text \<open>
  Claim C1 as stated fails when the target frame itself contains the framing
  bytes: a keep-alive reply followed by a tag report with the timestamp
  \<open>00 F6 28 00\<close> does not give the tag report back, since the split cuts it.
\<close>

theorem stray_keep_alive_counterexample:
  "fst (wait_for_response_short (replying None (keep_alive_reply @ tag_report_frame))
          (PyBytes GET_TAG_REPORT) initial_world)
     \<noteq> Inr (None, tag_report_frame)"
  by (simp add: comp_defs trim_defs replying_def initial_world_def keep_alive_reply_def
      tag_report_frame_def GET_TAG_REPORT_def)

subsection \<open>Packing and unpacking flags\<close>

lemma str_int_bit: "str_int 0 = ''0''" "str_int 1 = ''1''"
  by (simp_all add: str_int_def format_d.simps hex_char_def)

lemma event_mask_round_trip:
  assumes "t0 = 0 \<or> t0 = 1" "t1 = 0 \<or> t1 = 1" "t2 = 0 \<or> t2 = 1"
    "t3 = 0 \<or> t3 = 1" "t4 = 0 \<or> t4 = 1" "t5 = 0 \<or> t5 = 1"
  shows "\<exists>m. create_event_mask t0 t1 t2 t3 t4 t5 = Inr m
           \<and> bit_status m 0 = (t0 = 1) \<and> bit_status m 1 = (t1 = 1)
           \<and> bit_status m 2 = (t2 = 1) \<and> bit_status m 3 = (t3 = 1)
           \<and> bit_status m 4 = (t4 = 1) \<and> bit_status m 5 = (t5 = 1)"
  using assms
  by (elim disjE; simp add: create_event_mask_def str_int_bit int_base2_def bit_status_def)

lemma ant_enables_round_trip:
  assumes "a1 = 0 \<or> a1 = 1" "a2 = 0 \<or> a2 = 1" "a3 = 0 \<or> a3 = 1" "a4 = 0 \<or> a4 = 1"
  shows "\<exists>m. pack_ant_enables a1 a2 a3 a4 = Inr m
           \<and> bit_status m 0 = (a1 = 1) \<and> bit_status m 1 = (a2 = 1)
           \<and> bit_status m 2 = (a3 = 1) \<and> bit_status m 3 = (a4 = 1)"
  using assms
  by (elim disjE; simp add: pack_ant_enables_def str_int_bit int_base2_def bit_status_def)

text \<open>
  Claim C9. When each of the six event flags and each of the four antenna flags is
  the integer 0 or 1, packing succeeds, and \<open>bit_status\<close> at position \<open>i\<close> of the
  packed integer is true exactly when the \<open>i\<close>-th flag, in the declared order, is 1.
\<close>

theorem flags_round_trip:
  assumes "\<forall>x \<in> {t0, t1, t2, t3, t4, t5, a1, a2, a3, a4}. x = 0 \<or> x = (1::int)"
  shows "(\<exists>m. create_event_mask t0 t1 t2 t3 t4 t5 = Inr m
            \<and> bit_status m 0 = (t0 = 1) \<and> bit_status m 1 = (t1 = 1)
            \<and> bit_status m 2 = (t2 = 1) \<and> bit_status m 3 = (t3 = 1)
            \<and> bit_status m 4 = (t4 = 1) \<and> bit_status m 5 = (t5 = 1))
       \<and> (\<exists>m. pack_ant_enables a1 a2 a3 a4 = Inr m
            \<and> bit_status m 0 = (a1 = 1) \<and> bit_status m 1 = (a2 = 1)
            \<and> bit_status m 2 = (a3 = 1) \<and> bit_status m 3 = (a4 = 1))"
proof
  show "\<exists>m. create_event_mask t0 t1 t2 t3 t4 t5 = Inr m
            \<and> bit_status m 0 = (t0 = 1) \<and> bit_status m 1 = (t1 = 1)
            \<and> bit_status m 2 = (t2 = 1) \<and> bit_status m 3 = (t3 = 1)
            \<and> bit_status m 4 = (t4 = 1) \<and> bit_status m 5 = (t5 = 1)"
    using assms by (intro event_mask_round_trip) simp_all
  show "\<exists>m. pack_ant_enables a1 a2 a3 a4 = Inr m
            \<and> bit_status m 0 = (a1 = 1) \<and> bit_status m 1 = (a2 = 1)
            \<and> bit_status m 2 = (a3 = 1) \<and> bit_status m 3 = (a4 = 1)"
    using assms by (intro ant_enables_round_trip) simp_all
qed

theorem flags_round_trip_witness:
  "create_event_mask 1 0 1 0 1 1 = Inr 53
     \<and> bit_status 53 0 \<and> \<not> bit_status 53 1 \<and> bit_status 53 2 \<and> \<not> bit_status 53 3
     \<and> bit_status 53 4 \<and> bit_status 53 5
     \<and> pack_ant_enables 1 0 0 1 = Inr 9
     \<and> bit_status 9 0 \<and> \<not> bit_status 9 1 \<and> \<not> bit_status 9 2 \<and> bit_status 9 3"
  using flags_round_trip[of 1 0 1 0 1 1 1 0 0 1]
  by (simp add: create_event_mask_def pack_ant_enables_def str_int_bit int_base2_def
        bit_status_def)

subsection \<open>The get operations on an empty response\<close>

lemma trim_response_empty: "trim_response set_response [] = []"
  by (simp add: trim_defs)

lemma request_empty:
  assumes "send_result tr (n_send s) = None" and "recv_result tr (n_recv s) = (None, Some [])"
  shows "fst (request tr msg opcode s) = Inr (None, Some [])"
  using assms by (simp add: request_def comp_defs trim_response_empty)

lemma not_accepted_empty: "\<not> accepted opcode []"
  by (simp add: accepted_def slice_def STATUS_SUCCESS_def)

lemma fst_bind_c:
  "fst (m s) = Inr a \<Longrightarrow> fst (bind_c m f s) = fst (f a (snd (m s)))"
  by (cases "m s") (simp add: bind_c_def)

lemma build_no_word:
  "build_cmd ''0004'' ''0004'' NoWord = Inr [0xF6, 0x28, 0, 4, 0, 0x04]"
  "build_cmd ''0004'' ''0015'' NoWord = Inr [0xF6, 0x28, 0, 4, 0, 0x15]"
  "build_cmd ''0004'' ''0003'' NoWord = Inr [0xF6, 0x28, 0, 4, 0, 0x03]"
  "build_cmd ''0004'' ''0006'' NoWord = Inr [0xF6, 0x28, 0, 4, 0, 0x06]"
  "build_cmd ''0004'' ''000F'' NoWord = Inr [0xF6, 0x28, 0, 4, 0, 0x0F]"
  "build_cmd ''0004'' ''000D'' NoWord = Inr [0xF6, 0x28, 0, 4, 0, 0x0D]"
  "build_cmd ''0004'' ''0001'' NoWord = Inr [0xF6, 0x28, 0, 4, 0, 0x01]"
  "build_cmd ''0006'' ''0009'' (BytWord ''0000'') = Inr [0xF6, 0x28, 0, 6, 0, 0x09, 0, 0]"
  by (simp_all add: hex_defs int_base16_def)

lemma get_after_empty:
  assumes "send_result tr (n_send s) = None" and "recv_result tr (n_recv s) = (None, Some [])"
  shows "fst (bind_c (request tr msg opcode) (\<lambda>(error, res).
           if error = None then
             (case res of None \<Rightarrow> raise_c TypeError
              | Some r \<Rightarrow> if accepted opcode r then parse r else unit_c (Some e, None))
           else unit_c (error, None)) s) = Inr (Some e, None)"
  using request_empty[OF assms, of msg opcode]
  by (simp add: fst_bind_c not_accepted_empty unit_c_def)

text \<open>
  Claim C10. When the send succeeds and the receive gives the empty buffer without
  an error, \<open>wait_for_response_short\<close> returns \<open>(None, b'')\<close>, and each of the
  nine get operations returns its error message and no value; none of them raises.
  (\<open>get_operational_params\<close> builds its command from the code it is given: the
  statement is for every code from which the command can be built.)
\<close>

theorem get_operations_empty_response:
  assumes "send_result tr (n_send s) = None" and "recv_result tr (n_recv s) = (None, Some [])"
  shows "fst (wait_for_response_short tr set_response s) = Inr (None, [])
         \<and> fst (get_version tr s) = Inr (Some Unable_to_get_version, None)
         \<and> fst (get_temp tr s) = Inr (Some Unable_to_get_temperature, None)
         \<and> fst (get_op_region tr s) = Inr (Some Unable_to_get_operating_region, None)
         \<and> fst (get_tx_power tr s) = Inr (Some Unable_to_get_TX_power, None)
         \<and> fst (get_ant_enables tr s) = Inr (Some Unable_to_get_antenna_enables, None)
         \<and> fst (get_op_state tr s) = Inr (Some Unable_to_get_operating_state, None)
         \<and> fst (get_event_mask tr s) = Inr (Some Unable_to_get_event_mask, None)
         \<and> fst (get_tag_report tr s) = Inr (Some Unable_to_get_a_tag_report, None)
         \<and> (\<forall>w msg. build_cmd ''0006'' ''000B'' (BytWord w) = Inr msg \<longrightarrow>
               fst (get_operational_params tr (CodeStr w) s)
                 = Inr (Some Unable_to_get_operational_parameters, None))"
proof (intro conjI allI impI)
  show "fst (wait_for_response_short tr set_response s) = Inr (None, [])"
    using assms by (simp add: comp_defs trim_response_empty)
  show "fst (get_version tr s) = Inr (Some Unable_to_get_version, None)"
    unfolding get_version_def build_no_word
    by (simp add: fst_bind_c lift_c_def get_after_empty[OF assms])
  show "fst (get_temp tr s) = Inr (Some Unable_to_get_temperature, None)"
    unfolding get_temp_def build_get_temp
    by (simp add: fst_bind_c lift_c_def get_after_empty[OF assms])
  show "fst (get_op_region tr s) = Inr (Some Unable_to_get_operating_region, None)"
    unfolding get_op_region_def build_no_word
    by (simp add: fst_bind_c lift_c_def get_after_empty[OF assms])
  show "fst (get_tx_power tr s) = Inr (Some Unable_to_get_TX_power, None)"
    unfolding get_tx_power_def build_no_word
    by (simp add: fst_bind_c lift_c_def get_after_empty[OF assms])
  show "fst (get_ant_enables tr s) = Inr (Some Unable_to_get_antenna_enables, None)"
    unfolding get_ant_enables_def build_no_word Let_def
    by (simp add: fst_bind_c lift_c_def get_after_empty[OF assms])
  show "fst (get_op_state tr s) = Inr (Some Unable_to_get_operating_state, None)"
    unfolding get_op_state_def build_no_word
    by (simp add: fst_bind_c lift_c_def get_after_empty[OF assms])
  show "fst (get_event_mask tr s) = Inr (Some Unable_to_get_event_mask, None)"
    unfolding get_event_mask_def build_no_word Let_def
    by (simp add: fst_bind_c lift_c_def get_after_empty[OF assms])
  show "fst (get_tag_report tr s) = Inr (Some Unable_to_get_a_tag_report, None)"
    unfolding get_tag_report_def build_no_word
    by (simp add: fst_bind_c lift_c_def get_after_empty[OF assms])
next
  fix w msg
  assume "build_cmd ''0006'' ''000B'' (BytWord w) = Inr msg"
  then show "fst (get_operational_params tr (CodeStr w) s)
                 = Inr (Some Unable_to_get_operational_parameters, None)"
    unfolding get_operational_params_def Let_def
    by (simp add: fst_bind_c lift_c_def get_after_empty[OF assms])
qed

lemma build_get_op_params:
  "build_cmd ''0006'' ''000B'' (BytWord ''0003'') = Inr [0xF6, 0x28, 0, 6, 0, 0x0B, 0, 3]"
  by (simp add: hex_defs int_base16_def)

theorem get_operations_empty_response_witness:
  "fst (wait_for_response_short (replying None []) (PyBytes GET_TEMP) initial_world)
     = Inr (None, [])
   \<and> fst (get_version (replying None []) initial_world) = Inr (Some Unable_to_get_version, None)
   \<and> fst (get_temp (replying None []) initial_world) = Inr (Some Unable_to_get_temperature, None)
   \<and> fst (get_tag_report (replying None []) initial_world)
       = Inr (Some Unable_to_get_a_tag_report, None)
   \<and> fst (get_operational_params (replying None []) (CodeStr ''0003'') initial_world)
       = Inr (Some Unable_to_get_operational_parameters, None)"
  using get_operations_empty_response[of "replying None []" initial_world "PyBytes GET_TEMP"]
    build_get_op_params
  by (simp add: replying_def initial_world_def)


subsection \<open>The set operations\<close>

lemma build_set_cmds:
  "build_cmd ''000C'' ''0005'' (IntWords 3000 3000 3000 3000)
     = Inr [0xF6, 0x28, 0, 0x0C, 0, 0x05, 0x0B, 0xB8, 0x0B, 0xB8, 0x0B, 0xB8, 0x0B, 0xB8]"
  "build_cmd ''0006'' ''000E'' (IntWord 1) = Inr [0xF6, 0x28, 0, 6, 0, 0x0E, 0, 1]"
  "build_cmd ''0006'' ''000C'' (BytWord ''0000'') = Inr [0xF6, 0x28, 0, 6, 0, 0x0C, 0, 0]"
  "build_cmd ''0006'' ''000C'' (BytWord ''0004'') = Inr [0xF6, 0x28, 0, 6, 0, 0x0C, 0, 4]"
  "build_cmd ''000A'' ''000A'' (Uint32Word ''0003'' 50000)
     = Inr [0xF6, 0x28, 0, 0x0A, 0, 0x0A, 0, 3, 0, 0, 0xC3, 0x50]"
  "build_cmd ''0008'' ''0014'' (Int32Word 63) = Inr [0xF6, 0x28, 0, 8, 0, 0x14, 0, 0, 0, 63]"
  by (simp_all add: hex_defs int_base16_def to_bytes_big_def upt_rec)

lemma int_to_hex_string_8: "int_to_hex_string 8 = ''0008''"
  by (simp add: int_to_hex_string_def rjust_def format_x.simps hex_char_def eval_nat_numeral)

lemma build_set_region:
  "build_cmd (int_to_hex_string 8) ''0002'' (StrWord ''FCC'')
     = Inr [0xF6, 0x28, 0, 8, 0, 0x02, 0x46, 0x43, 0x43, 0]"
  by (simp add: int_to_hex_string_8) (simp add: hex_defs int_base16_def utf8_encode_def)

lemma create_event_mask_all: "create_event_mask 1 1 1 1 1 1 = Inr 63"
  by (simp add: create_event_mask_def str_int_def format_d.simps hex_char_def int_base2_def)

lemma pack_ant_enables_first: "pack_ant_enables 1 0 0 0 = Inr 1"
  by (simp add: pack_ant_enables_def str_int_def format_d.simps hex_char_def int_base2_def)

lemmas set_eval_defs = build_set_cmds build_set_region build_no_word create_event_mask_all
  pack_ant_enables_first request_set_def wait_for_response_long_def comp_defs trim_defs
  replying_def initial_world_def opcode_defs long_loop.simps refused_def IDLE_def

text \<open>
  Claim C2 fails on the code. The response here is the reply to a keep-alive:
  status \<open>00 00\<close>, opcode \<open>80 01\<close>. It carries the opcode of none of the set
  operations, and yet \<open>set_tx_power\<close>, \<open>set_ant_enables\<close>, \<open>set_op_state\<close>,
  \<open>set_operational_param\<close> and \<open>set_event_mask\<close> return no error.
  \<open>set_op_region\<close>, whose test is written out in three branches, returns an error
  for the same response.
\<close>

theorem set_accepts_mismatched_opcode:
  "fst (set_tx_power (replying None keep_alive_reply) 3000 3000 3000 3000 initial_world) = Inr None
   \<and> fst (set_ant_enables (replying None keep_alive_reply) 1 0 0 0 initial_world) = Inr None
   \<and> fst (set_op_state (replying None keep_alive_reply) IDLE initial_world) = Inr None
   \<and> fst (set_operational_param (replying None keep_alive_reply) (CodeStr ''0003'') 50000
           initial_world) = Inr None
   \<and> fst (set_event_mask (replying None keep_alive_reply) 1 1 1 1 1 1 initial_world) = Inr None
   \<and> fst (set_op_region (replying None keep_alive_reply) ''FCC'' initial_world)
       = Inr (Some Unable_to_set_operating_region)"
  by (simp add: set_tx_power_def set_ant_enables_def set_op_state_def set_operational_param_def
        set_event_mask_def set_op_region_def set_eval_defs keep_alive_reply_def)

text \<open>
  Claim C3 fails on the code for \<open>set_op_region\<close>. When nothing arrives,
  \<open>set_op_region\<close> returns after one send and one receive, without a keep-alive;
  \<open>set_tx_power\<close> in the same situation goes through the five keep-alives of
  \<open>wait_for_response_long\<close>.
\<close>

theorem set_op_region_no_long_wait:
  "set_op_region no_bytes ''FCC'' initial_world
     = (Inr (Some (Transport_error ''Err1: No bytes from the device'')),
        \<lparr>n_send = 1, n_recv = 1, n_poll = 0,
         trace = [Send [0xF6, 0x28, 0, 8, 0, 0x02, 0x46, 0x43, 0x43, 0], Receive]\<rparr>)
   \<and> set_tx_power no_bytes 3000 3000 3000 3000 initial_world
     = (Inr (Some (Transport_error ''Err1: No bytes from the device'')),
        \<lparr>n_send = 6, n_recv = 6, n_poll = 0,
         trace = [Send [0xF6, 0x28, 0, 0x0C, 0, 0x05, 0x0B, 0xB8, 0x0B, 0xB8, 0x0B, 0xB8, 0x0B, 0xB8],
                  Wait_ms 1000, Receive]
                 @ [Send [0xF6, 0x28, 0, 4, 0, 1], Receive, Wait_ms 1000,
                    Send [0xF6, 0x28, 0, 4, 0, 1], Receive, Wait_ms 1000,
                    Send [0xF6, 0x28, 0, 4, 0, 1], Receive, Wait_ms 1000,
                    Send [0xF6, 0x28, 0, 4, 0, 1], Receive, Wait_ms 1000,
                    Send [0xF6, 0x28, 0, 4, 0, 1], Receive, Wait_ms 1000]\<rparr>)"
  by (simp add: set_tx_power_def set_op_region_def set_eval_defs no_bytes_def)

text \<open>The five operations that share \<open>request_set\<close> do go into the long wait on an
  empty response, with or without an error from the receive.\<close>

lemma request_set_falls_back:
  assumes "send_result tr (n_send s) = None" and "recv_result tr (n_recv s) = (err, Some [])"
  shows "request_set tr msg opcode s
           = wait_for_response_long tr (PyBytes opcode)
               (s\<lparr>n_send := Suc (n_send s), n_recv := Suc (n_recv s),
                  trace := trace s @ [Send msg, Wait_ms 1000, Receive]\<rparr>)"
  using assms by (simp add: request_set_def comp_defs trim_defs)

subsection \<open>The loop of \<open>wait_for_response_long\<close>\<close>

lemma is_send_simps [simp]:
  "is_send (Send m)" "\<not> is_send Receive" "\<not> is_send (Wait_ms n)"
  "\<not> is_send (Print_tag_report t)" "\<not> is_send Clear_uhf_params"
  "\<not> is_send (Emit_meta_data md)" "\<not> is_send Emit_tag_detected_audio"
  by (simp_all add: is_send_def)

lemma sends_append [simp]: "sends (xs @ ys) = sends xs @ sends ys"
  by (induction xs rule: sends.induct) auto

lemma io_only_append [simp]: "io_only (xs @ ys) = (io_only xs \<and> io_only ys)"
  by (induction xs rule: io_only.induct) auto

lemma paced_append_wait:
  "paced xs \<Longrightarrow> paced ys \<Longrightarrow> paced (xs @ Wait_ms 1000 # ys)"
proof (induction xs rule: paced.induct)
  case 1
  then show ?case by (cases ys) (auto simp: is_send_def)
next
  case (2 ev)
  then show ?case by (cases ys) (auto simp: is_send_def)
next
  case (3 ev ev' evs)
  then show ?case by simp
qed

lemma send_cmd_eq:
  "send_cmd tr msg s = (Inr (map_option Transport_error (send_result tr (n_send s))),
      s\<lparr>n_send := Suc (n_send s), trace := trace s @ [Send msg]\<rparr>)"
  by (simp add: comp_defs)

lemma wait_for_response_short_eq:
  "wait_for_response_short tr sr s =
     (case snd (recv_result tr (n_recv s)) of
        None \<Rightarrow> Inl AttributeError
      | Some b \<Rightarrow> Inr (map_option Transport_error (fst (recv_result tr (n_recv s))), trim_response sr b),
      s\<lparr>n_recv := Suc (n_recv s), trace := trace s @ [Receive]\<rparr>)"
  by (cases "recv_result tr (n_recv s)") (simp add: comp_defs split: option.splits)

lemma wait_ms_eq: "snd (wait_ms n s) = s\<lparr>trace := trace s @ [Wait_ms n]\<rparr>"
  by (simp add: comp_defs)

lemma long_loop_done:
  "\<not> count < 5 \<Longrightarrow> long_loop tr msg sr count error res s = (Inr (error, res), s)"
  by (simp add: long_loop.simps)

lemma long_loop_send_failed:
  "count < 5 \<Longrightarrow> send_result tr (n_send s) = Some e \<Longrightarrow>
     long_loop tr msg sr count error res s =
       long_loop tr msg sr (Suc count) (Some (Transport_error e)) res
         (s\<lparr>n_send := Suc (n_send s), trace := trace s @ [Send msg, Wait_ms 1000]\<rparr>)"
  by (subst long_loop.simps) (simp add: send_cmd_eq wait_ms_eq)

lemma long_loop_no_data:
  "count < 5 \<Longrightarrow> send_result tr (n_send s) = None \<Longrightarrow> recv_result tr (n_recv s) = (e, None) \<Longrightarrow>
     long_loop tr msg sr count error res s =
       (Inl AttributeError,
        s\<lparr>n_send := Suc (n_send s), n_recv := Suc (n_recv s),
          trace := trace s @ [Send msg, Receive]\<rparr>)"
  by (subst long_loop.simps) (simp add: send_cmd_eq wait_for_response_short_eq)

lemma long_loop_match:
  "count < 5 \<Longrightarrow> send_result tr (n_send s) = None \<Longrightarrow> recv_result tr (n_recv s) = (e, Some b) \<Longrightarrow>
   PyBytes (slice 4 6 (trim_response sr b)) = sr \<Longrightarrow>
     long_loop tr msg sr count error res s =
       (Inr (map_option Transport_error e, Some (trim_response sr b)),
        s\<lparr>n_send := Suc (n_send s), n_recv := Suc (n_recv s),
          trace := trace s @ [Send msg, Receive]\<rparr>)"
  by (subst long_loop.simps) (simp add: send_cmd_eq wait_for_response_short_eq)

lemma long_loop_no_match:
  "count < 5 \<Longrightarrow> send_result tr (n_send s) = None \<Longrightarrow> recv_result tr (n_recv s) = (e, Some b) \<Longrightarrow>
   PyBytes (slice 4 6 (trim_response sr b)) \<noteq> sr \<Longrightarrow>
     long_loop tr msg sr count error res s =
       long_loop tr msg sr (Suc count) (map_option Transport_error e) (Some (trim_response sr b))
         (s\<lparr>n_send := Suc (n_send s), n_recv := Suc (n_recv s),
            trace := trace s @ [Send msg, Receive, Wait_ms 1000]\<rparr>)"
  by (subst long_loop.simps) (simp add: send_cmd_eq wait_for_response_short_eq wait_ms_eq)

lemma long_loop_counts:
  "long_loop tr msg sr count error res s = (r, s') \<Longrightarrow>
     n_send s \<le> n_send s' \<and> n_send s' \<le> n_send s + (5 - count) \<and> n_recv s \<le> n_recv s'"
proof (induction "5 - count" arbitrary: count error res s)
  case 0
  then show ?case by (simp add: long_loop_done)
next
  case (Suc n)
  then have c: "count < 5" and n: "n = 5 - Suc count" by simp_all
  show ?case
  proof (cases "send_result tr (n_send s)")
    case (Some e)
    from Suc.prems show ?thesis
      unfolding long_loop_send_failed[OF c Some]
      using c by (auto dest!: Suc.hyps(1)[OF n])
  next
    case None
    obtain e d where rd: "recv_result tr (n_recv s) = (e, d)" by (cases "recv_result tr (n_recv s)")
    show ?thesis
    proof (cases d)
      case None
      with Suc.prems rd show ?thesis
        using c by (auto simp: long_loop_no_data[OF c \<open>send_result tr (n_send s) = None\<close>])
    next
      case (Some b)
      show ?thesis
      proof (cases "PyBytes (slice 4 6 (trim_response sr b)) = sr")
        case True
        with Suc.prems rd Some show ?thesis
          using c by (auto simp: long_loop_match[OF c \<open>send_result tr (n_send s) = None\<close>])
      next
        case False
        from Suc.prems show ?thesis
          unfolding long_loop_no_match[OF c \<open>send_result tr (n_send s) = None\<close> rd[unfolded Some] False]
          using c by (auto dest!: Suc.hyps(1)[OF n])
      qed
    qed
  qed
qed

lemma long_loop_trace:
  "long_loop tr msg sr count error res s = (r, s') \<Longrightarrow>
     \<exists>evs. trace s' = trace s @ evs \<and> paced evs
        \<and> sends evs = replicate (n_send s' - n_send s) msg \<and> io_only evs"
proof (induction "5 - count" arbitrary: count error res s)
  case 0
  then show ?case by (simp add: long_loop_done)
next
  case (Suc n)
  then have c: "count < 5" and n: "n = 5 - Suc count" by simp_all
  show ?case
  proof (cases "send_result tr (n_send s)")
    case (Some e)
    let ?s1 = "s\<lparr>n_send := Suc (n_send s), trace := trace s @ [Send msg, Wait_ms 1000]\<rparr>"
    from Suc.prems have run: "long_loop tr msg sr (Suc count) (Some (Transport_error e)) res ?s1 = (r, s')"
      by (simp only: long_loop_send_failed[OF c Some])
    from Suc.hyps(1)[OF n run] obtain evs where
      evs: "trace s' = trace ?s1 @ evs" "paced evs" "sends evs = replicate (n_send s' - n_send ?s1) msg"
        "io_only evs"
      by blast
    from long_loop_counts[OF run] have "Suc (n_send s) \<le> n_send s'" by simp
    then have "n_send s' - n_send s = Suc (n_send s' - Suc (n_send s))" by simp
    with evs show ?thesis
      using paced_append_wait[of "[Send msg]" evs]
      by (intro exI[of _ "Send msg # Wait_ms 1000 # evs"]) simp
  next
    case None
    obtain e d where rd: "recv_result tr (n_recv s) = (e, d)" by (cases "recv_result tr (n_recv s)")
    show ?thesis
    proof (cases d)
      case None
      with Suc.prems rd show ?thesis
        by (auto simp: long_loop_no_data[OF c \<open>send_result tr (n_send s) = None\<close>])
    next
      case (Some b)
      show ?thesis
      proof (cases "PyBytes (slice 4 6 (trim_response sr b)) = sr")
        case True
        with Suc.prems rd Some show ?thesis
          by (auto simp: long_loop_match[OF c \<open>send_result tr (n_send s) = None\<close>])
      next
        case False
        let ?s2 = "s\<lparr>n_send := Suc (n_send s), n_recv := Suc (n_recv s),
            trace := trace s @ [Send msg, Receive, Wait_ms 1000]\<rparr>"
        from Suc.prems have run:
          "long_loop tr msg sr (Suc count) (map_option Transport_error e) (Some (trim_response sr b)) ?s2
             = (r, s')"
          by (simp only: long_loop_no_match[OF c \<open>send_result tr (n_send s) = None\<close> rd[unfolded Some] False])
        from Suc.hyps(1)[OF n run] obtain evs where
          evs: "trace s' = trace ?s2 @ evs" "paced evs" "sends evs = replicate (n_send s' - n_send ?s2) msg"
            "io_only evs"
          by blast
        from long_loop_counts[OF run] have "Suc (n_send s) \<le> n_send s'" by simp
        then have "n_send s' - n_send s = Suc (n_send s' - Suc (n_send s))" by simp
        with evs show ?thesis
          using paced_append_wait[of "[Send msg, Receive]" evs]
          by (intro exI[of _ "Send msg # Receive # Wait_ms 1000 # evs"]) (simp add: is_send_def)
      qed
    qed
  qed
qed

lemma long_loop_result:
  "long_loop tr msg sr count error res s = (r, s') \<Longrightarrow>
     loop_outcome tr sr (opcode_matches sr) (5 - count) error res s r s'"
proof (induction "5 - count" arbitrary: count error res s)
  case 0
  then show ?case by (auto simp: long_loop_done loop_outcome_def)
next
  case (Suc n)
  then have c: "count < 5" and n: "n = 5 - Suc count" by simp_all
  show ?case
  proof (cases "send_result tr (n_send s)")
    case (Some e)
    let ?s1 = "s\<lparr>n_send := Suc (n_send s), trace := trace s @ [Send msg, Wait_ms 1000]\<rparr>"
    from Suc.prems have run: "long_loop tr msg sr (Suc count) (Some (Transport_error e)) res ?s1 = (r, s')"
      by (simp only: long_loop_send_failed[OF c Some])
    note ih = Suc.hyps(1)[OF n run, unfolded loop_outcome_def] and cnt = long_loop_counts[OF run]
    show ?thesis
    proof (cases "Suc count < 5")
      case True
      with ih cnt c show ?thesis
        unfolding loop_outcome_def by (auto split: sum.splits if_splits)
    next
      case False
      with run have "r = Inr (Some (Transport_error e), res)" "s' = ?s1"
        by (simp_all add: long_loop_done)
      with Some c False show ?thesis
        unfolding loop_outcome_def by auto
    qed
  next
    case None
    obtain e d where rd: "recv_result tr (n_recv s) = (e, d)" by (cases "recv_result tr (n_recv s)")
    show ?thesis
    proof (cases d)
      case None
      with Suc.prems rd show ?thesis
        by (auto simp: long_loop_no_data[OF c \<open>send_result tr (n_send s) = None\<close>]
              loop_outcome_def response_at_def)
    next
      case (Some b)
      show ?thesis
      proof (cases "PyBytes (slice 4 6 (trim_response sr b)) = sr")
        case True
        with Suc.prems rd Some show ?thesis
          by (auto simp: long_loop_match[OF c \<open>send_result tr (n_send s) = None\<close>]
                loop_outcome_def response_at_def receive_error_at_def opcode_matches_def)
      next
        case False
        let ?s2 = "s\<lparr>n_send := Suc (n_send s), n_recv := Suc (n_recv s),
            trace := trace s @ [Send msg, Receive, Wait_ms 1000]\<rparr>"
        from Suc.prems have run:
          "long_loop tr msg sr (Suc count) (map_option Transport_error e) (Some (trim_response sr b)) ?s2
             = (r, s')"
          by (simp only: long_loop_no_match[OF c \<open>send_result tr (n_send s) = None\<close> rd[unfolded Some] False])
        note ih = Suc.hyps(1)[OF n run, unfolded loop_outcome_def] and cnt = long_loop_counts[OF run]
        have here: "response_at tr sr (n_recv s) = Some (trim_response sr b)"
          "\<not> opcode_matches sr (trim_response sr b)"
          "receive_error_at tr (n_recv s) = map_option Transport_error e"
          using rd Some False by (simp_all add: response_at_def opcode_matches_def receive_error_at_def)
        show ?thesis
        proof (cases "Suc count < 5")
          case True
          have first: "\<forall>j. n_recv s \<le> j \<and> Suc j < n_recv s' \<longrightarrow>
                  (\<exists>b. response_at tr sr j = Some b \<and> \<not> opcode_matches sr b)"
          proof (intro allI impI)
            fix j assume j: "n_recv s \<le> j \<and> Suc j < n_recv s'"
            show "\<exists>b. response_at tr sr j = Some b \<and> \<not> opcode_matches sr b"
            proof (cases "j = n_recv s")
              case True
              with here show ?thesis by simp
            next
              case False
              with j have "n_recv ?s2 \<le> j \<and> Suc j < n_recv s'" by simp
              with ih show ?thesis by blast
            qed
          qed
          show ?thesis
          proof (cases "n_recv s' = Suc (n_recv s)")
            case eq: True
            with ih cnt c True here first show ?thesis
              unfolding loop_outcome_def by (auto split: sum.splits if_splits)
          next
            case neq: False
            with cnt have lt: "Suc (n_recv s) < n_recv s'" by simp
            with ih cnt c True here first show ?thesis
              unfolding loop_outcome_def by (auto split: sum.splits if_splits)
          qed
        next
          case False
          with run have "r = Inr (map_option Transport_error e, Some (trim_response sr b))" "s' = ?s2"
            by (simp_all add: long_loop_done)
          with \<open>send_result tr (n_send s) = None\<close> c False here show ?thesis
            unfolding loop_outcome_def by auto
        qed
      qed
    qed
  qed
qed

lemma wait_for_response_long_eq:
  "wait_for_response_long tr sr s = long_loop tr keep_alive_msg sr 0 None None s"
  by (simp add: wait_for_response_long_def build_no_word bind_c_def lift_c_def keep_alive_msg_def)

text \<open>
  What holds of every call of \<open>wait_for_response_long\<close>: it sends nothing but
  keep-alive commands, at most five of them, each but the first right after a wait
  of one second; it stops at the first response whose bytes 4 and 5 are the expected
  opcode and returns it; when no response of the five attempts has that opcode
  it returns the error of the last attempt, which is \<open>None\<close> when that attempt
  received something, and the last response taken; and it raises when a receive
  gives no data at all.
\<close>

theorem wait_for_response_long_bounded:
  assumes "wait_for_response_long tr sr s = (r, s')"
  shows "(\<exists>evs. trace s' = trace s @ evs \<and> paced evs
            \<and> sends evs = replicate (n_send s' - n_send s) keep_alive_msg)
         \<and> n_send s' - n_send s \<le> 5
         \<and> loop_outcome tr sr (opcode_matches sr) 5 None None s r s'"
proof -
  from assms have run: "long_loop tr keep_alive_msg sr 0 None None s = (r, s')"
    by (simp only: wait_for_response_long_eq)
  from long_loop_counts[OF run] have "n_send s' - n_send s \<le> 5" by auto
  moreover from long_loop_result[OF run] have "loop_outcome tr sr (opcode_matches sr) 5 None None s r s'" by simp
  ultimately show ?thesis using long_loop_trace[OF run] by blast
qed

lemma third_matches_run:
  "wait_for_response_long third_matches (PyBytes GET_TEMP) initial_world
     = (Inr (None, Some temp_frame), after_three_probes)"
  by (simp add: wait_for_response_long_eq long_loop.simps comp_defs trim_defs third_matches_def
        initial_world_def after_three_probes_def temp_frame_def keep_alive_reply_def
        keep_alive_msg_def GET_TEMP_def)

theorem wait_for_response_long_bounded_witness:
  "wait_for_response_long third_matches (PyBytes GET_TEMP) initial_world
     = (Inr (None, Some temp_frame), after_three_probes)
   \<and> (\<exists>evs. trace after_three_probes = trace initial_world @ evs \<and> paced evs
          \<and> sends evs = replicate 3 keep_alive_msg)
   \<and> loop_outcome third_matches (PyBytes GET_TEMP) (opcode_matches (PyBytes GET_TEMP)) 5 None None initial_world
        (Inr (None, Some temp_frame)) after_three_probes"
  using wait_for_response_long_bounded[OF third_matches_run] third_matches_run
  by (simp add: initial_world_def after_three_probes_def)


text \<open>What a caller makes of it: \<open>set_tx_power\<close> gets nothing at its own receive,
  goes into the long wait, and reports success after five answered probes.\<close>

lemma set_tx_power_after_long_wait:
  "fst (set_tx_power silent_then_alive 3000 3000 3000 3000 initial_world) = Inr None"
  by (simp add: set_tx_power_def build_set_cmds request_set_def wait_for_response_long_eq
        long_loop.simps comp_defs trim_defs silent_then_alive_def refused_def
        initial_world_def keep_alive_reply_def keep_alive_msg_def SET_TX_POWER_def
        STATUS_SUCCESS_def)

subsection \<open>The loop of \<open>keep_alive\<close>\<close>

lemma keep_alive_loop_done:
  "\<not> count < 15 \<Longrightarrow> keep_alive_loop tr msg count error res s = (Inr (error, res), s)"
  by (simp add: keep_alive_loop.simps)

lemma keep_alive_loop_send_failed:
  "count < 15 \<Longrightarrow> send_result tr (n_send s) = Some e \<Longrightarrow>
     keep_alive_loop tr msg count error res s =
       keep_alive_loop tr msg (Suc count) (Some (Transport_error e)) res
         (s\<lparr>n_send := Suc (n_send s), trace := trace s @ [Send msg, Wait_ms 1000]\<rparr>)"
  by (subst keep_alive_loop.simps) (simp add: send_cmd_eq wait_ms_eq)

lemma keep_alive_loop_no_data:
  "count < 15 \<Longrightarrow> send_result tr (n_send s) = None \<Longrightarrow> recv_result tr (n_recv s) = (e, None) \<Longrightarrow>
     keep_alive_loop tr msg count error res s =
       (Inl AttributeError,
        s\<lparr>n_send := Suc (n_send s), n_recv := Suc (n_recv s),
          trace := trace s @ [Send msg, Receive]\<rparr>)"
  by (subst keep_alive_loop.simps) (simp add: send_cmd_eq wait_for_response_short_eq)

lemma keep_alive_loop_stop:
  "count < 15 \<Longrightarrow> send_result tr (n_send s) = None \<Longrightarrow> recv_result tr (n_recv s) = (e, Some b) \<Longrightarrow>
   trim_response (PyInt REC_TIMEOUT) b \<noteq> [] \<Longrightarrow>
     keep_alive_loop tr msg count error res s =
       (Inr (map_option Transport_error e, Some (trim_response (PyInt REC_TIMEOUT) b)),
        s\<lparr>n_send := Suc (n_send s), n_recv := Suc (n_recv s),
          trace := trace s @ [Send msg, Receive]\<rparr>)"
  by (subst keep_alive_loop.simps) (simp add: send_cmd_eq wait_for_response_short_eq)

lemma keep_alive_loop_retry:
  "count < 15 \<Longrightarrow> send_result tr (n_send s) = None \<Longrightarrow> recv_result tr (n_recv s) = (e, Some b) \<Longrightarrow>
   \<not> trim_response (PyInt REC_TIMEOUT) b \<noteq> [] \<Longrightarrow>
     keep_alive_loop tr msg count error res s =
       keep_alive_loop tr msg (Suc count) (map_option Transport_error e) (Some (trim_response (PyInt REC_TIMEOUT) b))
         (s\<lparr>n_send := Suc (n_send s), n_recv := Suc (n_recv s),
            trace := trace s @ [Send msg, Receive, Wait_ms 1000]\<rparr>)"
  by (subst keep_alive_loop.simps) (simp add: send_cmd_eq wait_for_response_short_eq wait_ms_eq)

lemma keep_alive_loop_counts:
  "keep_alive_loop tr msg count error res s = (r, s') \<Longrightarrow>
     n_send s \<le> n_send s' \<and> n_send s' \<le> n_send s + (15 - count) \<and> n_recv s \<le> n_recv s'"
proof (induction "15 - count" arbitrary: count error res s)
  case 0
  then show ?case by (simp add: keep_alive_loop_done)
next
  case (Suc n)
  then have c: "count < 15" and n: "n = 15 - Suc count" by simp_all
  show ?case
  proof (cases "send_result tr (n_send s)")
    case (Some e)
    from Suc.prems show ?thesis
      unfolding keep_alive_loop_send_failed[OF c Some]
      using c by (auto dest!: Suc.hyps(1)[OF n])
  next
    case None
    obtain e d where rd: "recv_result tr (n_recv s) = (e, d)" by (cases "recv_result tr (n_recv s)")
    show ?thesis
    proof (cases d)
      case None
      with Suc.prems rd show ?thesis
        using c by (auto simp: keep_alive_loop_no_data[OF c \<open>send_result tr (n_send s) = None\<close>])
    next
      case (Some b)
      show ?thesis
      proof (cases "trim_response (PyInt REC_TIMEOUT) b \<noteq> []")
        case True
        with Suc.prems rd Some show ?thesis
          using c by (auto simp: keep_alive_loop_stop[OF c \<open>send_result tr (n_send s) = None\<close>])
      next
        case False
        from Suc.prems show ?thesis
          unfolding keep_alive_loop_retry[OF c \<open>send_result tr (n_send s) = None\<close> rd[unfolded Some] False]
          using c by (auto dest!: Suc.hyps(1)[OF n])
      qed
    qed
  qed
qed

lemma keep_alive_loop_trace:
  "keep_alive_loop tr msg count error res s = (r, s') \<Longrightarrow>
     \<exists>evs. trace s' = trace s @ evs \<and> paced evs
        \<and> sends evs = replicate (n_send s' - n_send s) msg \<and> io_only evs"
proof (induction "15 - count" arbitrary: count error res s)
  case 0
  then show ?case by (simp add: keep_alive_loop_done)
next
  case (Suc n)
  then have c: "count < 15" and n: "n = 15 - Suc count" by simp_all
  show ?case
  proof (cases "send_result tr (n_send s)")
    case (Some e)
    let ?s1 = "s\<lparr>n_send := Suc (n_send s), trace := trace s @ [Send msg, Wait_ms 1000]\<rparr>"
    from Suc.prems have run: "keep_alive_loop tr msg (Suc count) (Some (Transport_error e)) res ?s1 = (r, s')"
      by (simp only: keep_alive_loop_send_failed[OF c Some])
    from Suc.hyps(1)[OF n run] obtain evs where
      evs: "trace s' = trace ?s1 @ evs" "paced evs" "sends evs = replicate (n_send s' - n_send ?s1) msg"
        "io_only evs"
      by blast
    from keep_alive_loop_counts[OF run] have "Suc (n_send s) \<le> n_send s'" by simp
    then have "n_send s' - n_send s = Suc (n_send s' - Suc (n_send s))" by simp
    with evs show ?thesis
      using paced_append_wait[of "[Send msg]" evs]
      by (intro exI[of _ "Send msg # Wait_ms 1000 # evs"]) simp
  next
    case None
    obtain e d where rd: "recv_result tr (n_recv s) = (e, d)" by (cases "recv_result tr (n_recv s)")
    show ?thesis
    proof (cases d)
      case None
      with Suc.prems rd show ?thesis
        by (auto simp: keep_alive_loop_no_data[OF c \<open>send_result tr (n_send s) = None\<close>])
    next
      case (Some b)
      show ?thesis
      proof (cases "trim_response (PyInt REC_TIMEOUT) b \<noteq> []")
        case True
        with Suc.prems rd Some show ?thesis
          by (auto simp: keep_alive_loop_stop[OF c \<open>send_result tr (n_send s) = None\<close>])
      next
        case False
        let ?s2 = "s\<lparr>n_send := Suc (n_send s), n_recv := Suc (n_recv s),
            trace := trace s @ [Send msg, Receive, Wait_ms 1000]\<rparr>"
        from Suc.prems have run:
          "keep_alive_loop tr msg (Suc count) (map_option Transport_error e) (Some (trim_response (PyInt REC_TIMEOUT) b)) ?s2
             = (r, s')"
          by (simp only: keep_alive_loop_retry[OF c \<open>send_result tr (n_send s) = None\<close> rd[unfolded Some] False])
        from Suc.hyps(1)[OF n run] obtain evs where
          evs: "trace s' = trace ?s2 @ evs" "paced evs" "sends evs = replicate (n_send s' - n_send ?s2) msg"
            "io_only evs"
          by blast
        from keep_alive_loop_counts[OF run] have "Suc (n_send s) \<le> n_send s'" by simp
        then have "n_send s' - n_send s = Suc (n_send s' - Suc (n_send s))" by simp
        with evs show ?thesis
          using paced_append_wait[of "[Send msg, Receive]" evs]
          by (intro exI[of _ "Send msg # Receive # Wait_ms 1000 # evs"]) (simp add: is_send_def)
      qed
    qed
  qed
qed

lemma keep_alive_loop_result:
  "keep_alive_loop tr msg count error res s = (r, s') \<Longrightarrow>
     loop_outcome tr (PyInt REC_TIMEOUT) (\<lambda>b. b \<noteq> []) (15 - count) error res s r s'"
proof (induction "15 - count" arbitrary: count error res s)
  case 0
  then show ?case by (auto simp: keep_alive_loop_done loop_outcome_def)
next
  case (Suc n)
  then have c: "count < 15" and n: "n = 15 - Suc count" by simp_all
  show ?case
  proof (cases "send_result tr (n_send s)")
    case (Some e)
    let ?s1 = "s\<lparr>n_send := Suc (n_send s), trace := trace s @ [Send msg, Wait_ms 1000]\<rparr>"
    from Suc.prems have run: "keep_alive_loop tr msg (Suc count) (Some (Transport_error e)) res ?s1 = (r, s')"
      by (simp only: keep_alive_loop_send_failed[OF c Some])
    note ih = Suc.hyps(1)[OF n run, unfolded loop_outcome_def] and cnt = keep_alive_loop_counts[OF run]
    show ?thesis
    proof (cases "Suc count < 15")
      case True
      with ih cnt c show ?thesis
        unfolding loop_outcome_def by (auto split: sum.splits if_splits)
    next
      case False
      with run have "r = Inr (Some (Transport_error e), res)" "s' = ?s1"
        by (simp_all add: keep_alive_loop_done)
      with Some c False show ?thesis
        unfolding loop_outcome_def by auto
    qed
  next
    case None
    obtain e d where rd: "recv_result tr (n_recv s) = (e, d)" by (cases "recv_result tr (n_recv s)")
    show ?thesis
    proof (cases d)
      case None
      with Suc.prems rd show ?thesis
        by (auto simp: keep_alive_loop_no_data[OF c \<open>send_result tr (n_send s) = None\<close>]
              loop_outcome_def response_at_def)
    next
      case (Some b)
      show ?thesis
      proof (cases "trim_response (PyInt REC_TIMEOUT) b \<noteq> []")
        case True
        with Suc.prems rd Some show ?thesis
          by (auto simp: keep_alive_loop_stop[OF c \<open>send_result tr (n_send s) = None\<close>]
                loop_outcome_def response_at_def receive_error_at_def REC_TIMEOUT_def)
      next
        case False
        let ?s2 = "s\<lparr>n_send := Suc (n_send s), n_recv := Suc (n_recv s),
            trace := trace s @ [Send msg, Receive, Wait_ms 1000]\<rparr>"
        from Suc.prems have run:
          "keep_alive_loop tr msg (Suc count) (map_option Transport_error e) (Some (trim_response (PyInt REC_TIMEOUT) b)) ?s2
             = (r, s')"
          by (simp only: keep_alive_loop_retry[OF c \<open>send_result tr (n_send s) = None\<close> rd[unfolded Some] False])
        note ih = Suc.hyps(1)[OF n run, unfolded loop_outcome_def] and cnt = keep_alive_loop_counts[OF run]
        have here: "response_at tr (PyInt REC_TIMEOUT) (n_recv s) = Some (trim_response (PyInt REC_TIMEOUT) b)"
          "trim_response (PyInt REC_TIMEOUT) b = []"
          "receive_error_at tr (n_recv s) = map_option Transport_error e"
          using rd Some False by (simp_all add: response_at_def REC_TIMEOUT_def receive_error_at_def)
        show ?thesis
        proof (cases "Suc count < 15")
          case True
          have first: "\<forall>j. n_recv s \<le> j \<and> Suc j < n_recv s' \<longrightarrow>
                  (\<exists>b. response_at tr (PyInt REC_TIMEOUT) j = Some b \<and> \<not> b \<noteq> [])"
          proof (intro allI impI)
            fix j assume j: "n_recv s \<le> j \<and> Suc j < n_recv s'"
            show "\<exists>b. response_at tr (PyInt REC_TIMEOUT) j = Some b \<and> \<not> b \<noteq> []"
            proof (cases "j = n_recv s")
              case True
              with here show ?thesis by simp
            next
              case False
              with j have "n_recv ?s2 \<le> j \<and> Suc j < n_recv s'" by simp
              with ih show ?thesis by blast
            qed
          qed
          show ?thesis
          proof (cases "n_recv s' = Suc (n_recv s)")
            case eq: True
            with ih cnt c True here first show ?thesis
              unfolding loop_outcome_def by (auto split: sum.splits if_splits)
          next
            case neq: False
            with cnt have lt: "Suc (n_recv s) < n_recv s'" by simp
            with ih cnt c True here first show ?thesis
              unfolding loop_outcome_def by (auto split: sum.splits if_splits)
          qed
        next
          case False
          with run have "r = Inr (map_option Transport_error e, Some (trim_response (PyInt REC_TIMEOUT) b))" "s' = ?s2"
            by (simp_all add: keep_alive_loop_done)
          with \<open>send_result tr (n_send s) = None\<close> c False here show ?thesis
            unfolding loop_outcome_def by auto
        qed
      qed
    qed
  qed
qed

lemma from_bytes_big_nonneg_aux: "0 \<le> acc \<Longrightarrow> 0 \<le> foldl (\<lambda>acc b. acc * 256 + uint b) acc bs"
  by (induction bs arbitrary: acc) simp_all

lemma from_bytes_big_nonneg: "0 \<le> from_bytes_big bs"
  by (simp add: from_bytes_big_def from_bytes_big_nonneg_aux)

lemma cut_to_length_eq_Nil: "cut_to_length res = [] \<longleftrightarrow> res = []"
  using from_bytes_big_nonneg[of "slice 2 4 res"]
  by (auto simp: cut_to_length_def FRAMING_BYTES_LEN_def Let_def)

lemma select_frame_eq_Nil: "select_frame sr res = [] \<longleftrightarrow> res = []"
  by (auto simp: select_frame_def Let_def bytes_split_def FRAMING_BYTES_def)

lemma trim_response_eq_Nil: "trim_response sr res = [] \<longleftrightarrow> res = []"
  by (simp add: trim_response_def cut_to_length_eq_Nil select_frame_eq_Nil)

lemma keep_alive_world:
  "keep_alive tr s = (r, s') \<Longrightarrow>
     \<exists>r0. keep_alive_loop tr keep_alive_msg 0 None None s = (r0, s')"
  by (cases "keep_alive_loop tr keep_alive_msg 0 None None s")
     (auto simp: keep_alive_def build_no_word bind_c_def lift_c_def unit_c_def raise_c_def
        keep_alive_msg_def split: sum.splits option.splits if_splits)

text \<open>
  Claim C7. A call of \<open>keep_alive\<close> sends nothing but keep-alive commands, at most
  fifteen of them, each but the first right after a wait of one second. Every
  response that its loop takes before the last one is empty, and when the last one
  taken is not empty the loop ends right after that receive. The function is total:
  for every outside the call ends, after at most fifteen passes of the loop.
\<close>

theorem keep_alive_bounded:
  assumes "keep_alive tr s = (r, s')"
  shows "(\<exists>evs. trace s' = trace s @ evs \<and> paced evs
            \<and> sends evs = replicate (n_send s' - n_send s) keep_alive_msg)
         \<and> n_send s' - n_send s \<le> 15
         \<and> (\<exists>r0. keep_alive_loop tr keep_alive_msg 0 None None s = (r0, s')
                \<and> loop_outcome tr (PyInt REC_TIMEOUT) (\<lambda>b. b \<noteq> []) 15 None None s r0 s')"
proof -
  from keep_alive_world[OF assms] obtain r0 where
    run: "keep_alive_loop tr keep_alive_msg 0 None None s = (r0, s')" by blast
  from keep_alive_loop_counts[OF run] have "n_send s' - n_send s \<le> 15" by auto
  moreover from keep_alive_loop_result[OF run]
  have "loop_outcome tr (PyInt REC_TIMEOUT) (\<lambda>b. b \<noteq> []) 15 None None s r0 s'" by simp
  ultimately show ?thesis using keep_alive_loop_trace[OF run] run by blast
qed

lemma wakes_at_third_loop:
  "keep_alive_loop wakes_at_third keep_alive_msg 0 None None initial_world
     = (Inr (None, Some keep_alive_reply),
        \<lparr>n_send = 3, n_recv = 3, n_poll = 0,
         trace = [Send keep_alive_msg, Receive, Wait_ms 1000,
                  Send keep_alive_msg, Receive, Wait_ms 1000,
                  Send keep_alive_msg, Receive]\<rparr>)"
  by (simp add: keep_alive_loop.simps comp_defs trim_defs wakes_at_third_def
        initial_world_def keep_alive_reply_def keep_alive_msg_def)

lemma wakes_at_third_run:
  "keep_alive wakes_at_third initial_world
     = (Inr (None, Some True),
        \<lparr>n_send = 3, n_recv = 3, n_poll = 0,
         trace = [Send keep_alive_msg, Receive, Wait_ms 1000,
                  Send keep_alive_msg, Receive, Wait_ms 1000,
                  Send keep_alive_msg, Receive]\<rparr>)"
  using wakes_at_third_loop
  by (simp add: keep_alive_def build_no_word bind_c_def lift_c_def unit_c_def
        keep_alive_msg_def accepted_def slice_def keep_alive_reply_def opcode_defs)

theorem keep_alive_bounded_witness:
  "keep_alive wakes_at_third initial_world
     = (Inr (None, Some True),
        \<lparr>n_send = 3, n_recv = 3, n_poll = 0,
         trace = [Send keep_alive_msg, Receive, Wait_ms 1000,
                  Send keep_alive_msg, Receive, Wait_ms 1000,
                  Send keep_alive_msg, Receive]\<rparr>)
   \<and> loop_outcome wakes_at_third (PyInt REC_TIMEOUT) (\<lambda>b. b \<noteq> []) 15 None None initial_world
        (Inr (None, Some keep_alive_reply))
        \<lparr>n_send = 3, n_recv = 3, n_poll = 0,
         trace = [Send keep_alive_msg, Receive, Wait_ms 1000,
                  Send keep_alive_msg, Receive, Wait_ms 1000,
                  Send keep_alive_msg, Receive]\<rparr>"
  using keep_alive_bounded[OF wakes_at_third_run] wakes_at_third_run wakes_at_third_loop
  by simp

subsection \<open>What each operation adds to the trace\<close>

lemma outline_append [simp]: "outline (xs @ ys) = outline xs @ outline ys"
  by (simp add: outline_def)

lemma outline_simps [simp]:
  "outline [] = []"
  "outline (Send m # evs) = (if m = keep_alive_msg then outline evs else Send m # outline evs)"
  "outline (Receive # evs) = outline evs"
  "outline (Wait_ms n # evs) = outline evs"
  "outline (Print_tag_report t # evs) = Print_tag_report t # outline evs"
  "outline (Clear_uhf_params # evs) = Clear_uhf_params # outline evs"
  "outline (Emit_meta_data v # evs) = Emit_meta_data v # outline evs"
  "outline (Emit_tag_detected_audio # evs) = Emit_tag_detected_audio # outline evs"
  by (simp_all add: outline_def quiet_def)

lemma outline_io_only:
  "io_only evs \<Longrightarrow> set (sends evs) \<subseteq> {keep_alive_msg} \<Longrightarrow> outline evs = []"
  by (induction evs rule: io_only.induct) auto

lemma outline_keep_alives:
  "io_only evs \<Longrightarrow> sends evs = replicate k keep_alive_msg \<Longrightarrow> outline evs = []"
  by (rule outline_io_only) (simp_all add: set_replicate_conv_if)

lemma follows_refl: "follows s s []"
  by (simp add: follows_def)

lemma follows_trans:
  "follows s s1 xs \<Longrightarrow> follows s1 s2 ys \<Longrightarrow> follows s s2 (xs @ ys)"
  by (auto simp: follows_def)

lemma follows_log: "follows s (log ev s) (outline [ev])"
  by (simp add: follows_def log_def)

lemma request_follows:
  assumes "request tr msg opcode s = (r, s')" and "msg \<noteq> keep_alive_msg"
  shows "follows s s' [Send msg]"
proof -
  from assms(1) have "trace s' = trace s @ [Send msg] \<or> trace s' = trace s @ [Send msg, Wait_ms 500, Receive]"
    by (auto simp: request_def bind_c_def send_cmd_eq wait_ms_def log_def
          wait_for_response_short_eq unit_c_def split: if_splits option.splits prod.splits sum.splits)
  then show ?thesis using assms(2)
    by (auto simp: follows_def)
qed

lemma wait_for_response_long_follows:
  assumes "wait_for_response_long tr sr s = (r, s')"
  shows "follows s s' []"
proof -
  from assms have run: "long_loop tr keep_alive_msg sr 0 None None s = (r, s')"
    by (simp only: wait_for_response_long_eq)
  from long_loop_trace[OF run] obtain evs where
    "trace s' = trace s @ evs" "sends evs = replicate (n_send s' - n_send s) keep_alive_msg" "io_only evs"
    by blast
  then show ?thesis
    using outline_keep_alives[of evs] by (auto simp: follows_def)
qed

lemma keep_alive_follows:
  assumes "keep_alive tr s = (r, s')"
  shows "follows s s' []"
proof -
  from keep_alive_world[OF assms] obtain r0 where
    run: "keep_alive_loop tr keep_alive_msg 0 None None s = (r0, s')" by blast
  from keep_alive_loop_trace[OF run] obtain evs where
    "trace s' = trace s @ evs" "sends evs = replicate (n_send s' - n_send s) keep_alive_msg" "io_only evs"
    by blast
  then show ?thesis
    using outline_keep_alives[of evs] by (auto simp: follows_def)
qed

lemma request_set_follows:
  assumes "request_set tr msg opcode s = (r, s')" and "msg \<noteq> keep_alive_msg"
  shows "follows s s' [Send msg]"
proof (cases "send_result tr (n_send s)")
  case (Some e)
  with assms show ?thesis
    by (auto simp: request_set_def bind_c_def send_cmd_eq unit_c_def follows_def)
next
  case None
  let ?s1 = "s\<lparr>n_send := Suc (n_send s), n_recv := Suc (n_recv s),
                trace := trace s @ [Send msg, Wait_ms 1000, Receive]\<rparr>"
  have pre: "follows s ?s1 [Send msg]"
    using assms(2) by (simp add: follows_def)
  show ?thesis
  proof (cases "snd (recv_result tr (n_recv s))")
    case nodata: None
    with None assms(1) have "s' = ?s1"
      by (auto simp: request_set_def bind_c_def send_cmd_eq wait_ms_def log_def
            wait_for_response_short_eq)
    with pre show ?thesis by simp
  next
    case (Some b)
    show ?thesis
    proof (cases "trim_response (PyBytes opcode) b = []")
      case True
      with None Some assms(1) have "wait_for_response_long tr (PyBytes opcode) ?s1 = (r, s')"
        by (auto simp: request_set_def bind_c_def send_cmd_eq wait_ms_def log_def
              wait_for_response_short_eq)
      from follows_trans[OF pre wait_for_response_long_follows[OF this]] show ?thesis by simp
    next
      case False
      with None Some assms(1) have "s' = ?s1"
        by (auto simp: request_set_def bind_c_def send_cmd_eq wait_ms_def log_def
              wait_for_response_short_eq unit_c_def)
      with pre show ?thesis by simp
    qed
  qed
qed

lemma get_shape_world:
  assumes "bind_c (request tr msg opcode) (\<lambda>(error, res).
             if error = None then
               (case res of None \<Rightarrow> raise_c TypeError
                | Some r \<Rightarrow> if accepted opcode r then parse r else unit_c (Some e, None))
             else unit_c (error, None)) s = (r, s')"
    and "\<And>b w. snd (parse b w) = w"
    and "msg \<noteq> keep_alive_msg"
  shows "follows s s' [Send msg]"
proof -
  obtain r0 s0 where rq: "request tr msg opcode s = (r0, s0)" by (cases "request tr msg opcode s")
  have "s' = s0"
  proof (cases r0)
    case (Inl x)
    with assms(1) rq show ?thesis by (simp add: bind_c_def)
  next
    case (Inr a)
    obtain error res where a: "a = (error, res)" by (cases a)
    show ?thesis
    proof (cases "error = None \<and> (\<exists>b. res = Some b \<and> accepted opcode b)")
      case True
      then obtain b where "res = Some b" "accepted opcode b" "error = None" by blast
      with assms(1) rq Inr a have "parse b s0 = (r, s')" by (simp add: bind_c_def)
      with assms(2)[of b s0] show ?thesis by simp
    next
      case False
      with assms(1) rq Inr a show ?thesis
        by (auto simp: bind_c_def unit_c_def raise_c_def split: option.splits if_splits)
    qed
  qed
  with request_follows[OF rq assms(3)] show ?thesis by simp
qed

lemma snd_unit_c [simp]: "snd (unit_c a w) = w"
  by (simp add: unit_c_def)

lemma snd_decode_bind [simp]:
  "(\<And>t w. snd (f t w) = w) \<Longrightarrow> snd (bind_c (decode tr bs) f w) = w"
  by (simp add: bind_c_def decode_def raise_c_def unit_c_def split: option.splits)

lemma get_version_follows:
  "get_version tr s = (r, s') \<Longrightarrow> follows s s' [Send [0xF6, 0x28, 0, 4, 0, 0x04]]"
  unfolding get_version_def build_no_word
  by (simp add: bind_c_def[of "lift_c _"] lift_c_def)
     (erule get_shape_world; simp add: keep_alive_msg_def)

lemma get_temp_follows:
  "get_temp tr s = (r, s') \<Longrightarrow> follows s s' [Send [0xF6, 0x28, 0, 4, 0, 0x13]]"
  unfolding get_temp_def build_get_temp
  by (simp add: bind_c_def[of "lift_c _"] lift_c_def)
     (erule get_shape_world; simp add: keep_alive_msg_def)

lemma get_op_region_follows:
  "get_op_region tr s = (r, s') \<Longrightarrow> follows s s' [Send [0xF6, 0x28, 0, 4, 0, 0x03]]"
  unfolding get_op_region_def build_no_word
  by (simp add: bind_c_def[of "lift_c _"] lift_c_def)
     (erule get_shape_world; simp add: keep_alive_msg_def)

lemma get_tx_power_follows:
  "get_tx_power tr s = (r, s') \<Longrightarrow> follows s s' [Send [0xF6, 0x28, 0, 4, 0, 0x06]]"
  unfolding get_tx_power_def build_no_word
  by (simp add: bind_c_def[of "lift_c _"] lift_c_def)
     (erule get_shape_world; simp add: keep_alive_msg_def)

lemma get_ant_enables_follows:
  "get_ant_enables tr s = (r, s') \<Longrightarrow> follows s s' [Send [0xF6, 0x28, 0, 4, 0, 0x0F]]"
  unfolding get_ant_enables_def build_no_word Let_def
  by (simp add: bind_c_def[of "lift_c _"] lift_c_def)
     (erule get_shape_world; simp add: keep_alive_msg_def)

lemma get_op_state_follows:
  "get_op_state tr s = (r, s') \<Longrightarrow> follows s s' [Send get_op_state_msg]"
  unfolding get_op_state_def build_no_word get_op_state_msg_def
  by (simp add: bind_c_def[of "lift_c _"] lift_c_def)
     (erule get_shape_world; simp add: keep_alive_msg_def)

lemma get_tag_report_follows:
  "get_tag_report tr s = (r, s') \<Longrightarrow> follows s s' [Send get_tag_report_msg]"
  unfolding get_tag_report_def build_no_word get_tag_report_msg_def
  by (simp add: bind_c_def[of "lift_c _"] lift_c_def)
     (erule get_shape_world; simp add: keep_alive_msg_def)

lemma set_shape_world:
  assumes "bind_c (request_set tr msg opcode) (\<lambda>(error, res).
             if error = None then
               (case res of None \<Rightarrow> raise_c TypeError
                | Some r \<Rightarrow> if refused j opcode r then unit_c (Some e) else unit_c None)
             else unit_c error) s = (r, s')"
    and "msg \<noteq> keep_alive_msg"
  shows "follows s s' [Send msg]"
proof -
  obtain r0 s0 where rq: "request_set tr msg opcode s = (r0, s0)"
    by (cases "request_set tr msg opcode s")
  from assms(1) rq have "s' = s0"
    by (auto simp: bind_c_def unit_c_def raise_c_def split: sum.splits option.splits if_splits)
  with request_set_follows[OF rq assms(2)] show ?thesis by simp
qed

lemma set_op_state_idle_follows:
  "set_op_state tr IDLE s = (r, s') \<Longrightarrow> follows s s' [Send idle_msg]"
  unfolding set_op_state_def IDLE_def build_set_cmds idle_msg_def
  by (simp add: bind_c_def[of "lift_c _"] lift_c_def)
     (erule set_shape_world; simp add: keep_alive_msg_def)

lemma set_op_state_tag_read_follows:
  "set_op_state tr TAG_READ s = (r, s') \<Longrightarrow> follows s s' [Send tag_read_msg]"
  unfolding set_op_state_def TAG_READ_def build_set_cmds tag_read_msg_def
  by (simp add: bind_c_def[of "lift_c _"] lift_c_def)
     (erule set_shape_world; simp add: keep_alive_msg_def)

lemma bind_c_InrE:
  assumes "bind_c m f s = (Inr y, s')"
  obtains x s1 where "m s = (Inr x, s1)" and "f x s1 = (Inr y, s')"
  using assms by (cases "m s") (auto simp: bind_c_def split: sum.splits)

lemma poll_tags_done: "\<not> i < 10 \<Longrightarrow> poll_tags tr i e t s = (Inr (e, t), s)"
  by (simp add: poll_tags.simps)

lemma poll_tags_raise:
  "i < 10 \<Longrightarrow> get_tag_report tr s = (Inl x, s1) \<Longrightarrow> poll_tags tr i e t s = (Inl x, s1)"
  by (subst poll_tags.simps) simp

lemma poll_tags_stop:
  "i < 10 \<Longrightarrow> get_tag_report tr s = (Inr (e1, Some t1), s1) \<Longrightarrow>
     poll_tags tr i e t s = (Inr (e1, Some t1), log (Print_tag_report (Some t1)) s1)"
  by (subst poll_tags.simps) simp

lemma poll_tags_again:
  "i < 10 \<Longrightarrow> get_tag_report tr s = (Inr (e1, None), s1) \<Longrightarrow>
     poll_tags tr i e t s = poll_tags tr (Suc i) e1 None (log (Print_tag_report None) s1)"
  by (subst poll_tags.simps) simp

lemma poll_tags_follows:
  "poll_tags tr i e t s = (Inr (e', t'), s') \<Longrightarrow> i < 10 \<Longrightarrow>
     \<exists>k. 1 \<le> k \<and> k \<le> 10 - i \<and> (t' = None \<longrightarrow> k = 10 - i)
        \<and> follows s s' (concat (replicate (k - 1) (poll None)) @ poll t')"
proof (induction "10 - i" arbitrary: i e t s)
  case 0
  then show ?case by simp
next
  case (Suc n)
  from Suc.prems(2) have i: "i < 10" .
  obtain r1 s1 where g: "get_tag_report tr s = (r1, s1)" by (cases "get_tag_report tr s")
  have "\<exists>e1 t1. r1 = Inr (e1, t1)"
  proof (cases r1)
    case (Inl x)
    with Suc.prems(1) g i show ?thesis by (simp add: poll_tags_raise)
  next
    case (Inr a)
    then show ?thesis by (cases a) simp
  qed
  then obtain e1 t1 where r1: "r1 = Inr (e1, t1)" by blast
  let ?s2 = "log (Print_tag_report t1) s1"
  have f1: "follows s ?s2 (poll t1)"
    using follows_trans[OF get_tag_report_follows[OF g] follows_log[of s1 "Print_tag_report t1"]]
    by (simp add: poll_def)
  show ?case
  proof (cases t1)
    case (Some y)
    with Suc.prems(1) g r1 i have "t' = t1" "s' = ?s2"
      by (auto simp: poll_tags_stop)
    with f1 Some have "1 \<le> (1::nat) \<and> 1 \<le> 10 - i \<and> (t' = None \<longrightarrow> 1 = 10 - i)
        \<and> follows s s' (concat (replicate (1 - 1) (poll None)) @ poll t')"
      using i by auto
    then show ?thesis by blast
  next
    case None
    with Suc.prems(1) g r1 i have rec: "poll_tags tr (Suc i) e1 None ?s2 = (Inr (e', t'), s')"
      by (simp add: poll_tags_again)
    show ?thesis
    proof (cases "Suc i < 10")
      case False
      with rec have "t' = None" "s' = ?s2"
        by (auto simp: poll_tags_done)
      with f1 None False i have "1 \<le> (1::nat) \<and> 1 \<le> 10 - i \<and> (t' = None \<longrightarrow> 1 = 10 - i)
        \<and> follows s s' (concat (replicate (1 - 1) (poll None)) @ poll t')"
        by auto
      then show ?thesis by blast
    next
      case lt: True
      from Suc.hyps(2) have n: "n = 10 - Suc i" by simp
      from Suc.hyps(1)[OF n rec lt] obtain k where
        k: "1 \<le> k" "k \<le> 10 - Suc i" "t' = None \<longrightarrow> k = 10 - Suc i"
           "follows ?s2 s' (concat (replicate (k - 1) (poll None)) @ poll t')" by blast
      from k(1) have rep: "replicate (Suc k - 1) (poll None) = poll None # replicate (k - 1) (poll None)"
        by (cases k) simp_all
      from follows_trans[OF f1 k(4)] None
      have "follows s s' (concat (replicate (Suc k - 1) (poll None)) @ poll t')"
        by (simp only: rep concat.simps append_assoc)
      with k(1-3) lt have "1 \<le> Suc k \<and> Suc k \<le> 10 - i \<and> (t' = None \<longrightarrow> Suc k = 10 - i)
        \<and> follows s s' (concat (replicate (Suc k - 1) (poll None)) @ poll t')"
        by auto
      then show ?thesis by blast
    qed
  qed
qed

lemma read_tags_steps:
  assumes "read_tags tr p v s = (Inr v', s')"
  obtains e0 s1 eg og s2 et t' s3 ei s4 where
    "set_op_state tr TAG_READ s = (Inr e0, s1)"
    "get_op_state tr s1 = (Inr (eg, og), s2)"
    "poll_tags tr 0 (err_tag_report_get (md_error v)) (md_tag_report v) s2 = (Inr (et, t'), s3)"
    "set_op_state tr IDLE s3 = (Inr ei, s4)"
    "s' = (if soundEffect p \<and> falsy et then log Emit_tag_detected_audio s4 else s4)"
    "v' = v\<lparr>md_error := (md_error v)\<lparr>err_opSate_set := ei, err_op_state_get := eg,
                                        err_tag_report_get := et\<rparr>,
            md_op_state := og, md_tag_report := t'\<rparr>"
  using assms unfolding read_tags_def
  apply (elim bind_c_InrE)
  apply (simp only: split_paired_all prod.case)
  apply (elim bind_c_InrE)
  apply (simp only: split_paired_all prod.case)
  apply (elim bind_c_InrE)
  apply (auto simp: emit_def unit_c_def split: if_splits)
  done

end
